theory Spec2Isabelle
  imports Main "HOL-Library.Word"
begin

section \<open>Data model\<close>

text \<open>
  The balance-reconciliation engine of \<^verbatim>\<open>internal/logic/cross_chain/messenger_cross_chain.go\<close>,
  embedded function by function, with the collaborators it calls.
  Go's \<^verbatim>\<open>uint64\<close> is a 64-bit word, \<^verbatim>\<open>*big.Int\<close> is \<open>int option\<close> (\<open>None\<close> is the nil
  pointer), \<^verbatim>\<open>decimal.Decimal\<close> built by \<^verbatim>\<open>NewFromBigInt(x, 0)\<close> is the integer \<open>x\<close>.
\<close>

type_synonym uint64 = "64 word"

text \<open>
  Modelled from the spec: the type \<^verbatim>\<open>types.LayerType\<close> is declared in package \<^verbatim>\<open>types\<close>, which
  is not among the sources; a layer is one of the two chains bridged, and the engine names
  them \<^verbatim>\<open>types.Layer1\<close> and \<^verbatim>\<open>types.Layer2\<close>.
\<close>

datatype LayerType = Layer1 | Layer2

text \<open>
  The numeric values of the other constants of package \<^verbatim>\<open>types\<close> that the engine uses are
  parameters of the model. The engine only ever compares against them or stores them.
\<close>

record types_pkg =
  L1SentMessage :: int
  L1RelayedMessage :: int
  L2SentMessage :: int
  L2RelayedMessage :: int
  ETHAmountStatusTypeSet :: int
  ETHBalanceStatusTypeValid :: int

text \<open>The constants of one enumeration are pairwise different.\<close>

definition distinct_events :: "types_pkg \<Rightarrow> bool" where
  "distinct_events T \<longleftrightarrow>
     L1SentMessage T \<noteq> L1RelayedMessage T \<and> L2SentMessage T \<noteq> L2RelayedMessage T"

text \<open>
  Modelled from the spec: the struct \<^verbatim>\<open>orm.MessengerMessageMatch\<close> is declared outside the
  sources. A transfer record has a store-assigned numeric id, per layer an event kind, a
  block number, a running balance and a balance-check status, and an amount kept as a
  base-10 string. The field names and Go types are those of the engine's uses and of the
  sibling struct \<^verbatim>\<open>orm.MessageMatch\<close> (\<^verbatim>\<open>int64\<close> ids are only compared, never computed with;
  \<^verbatim>\<open>ETHAmountStatus\<close> tells whether the amount has been set).
\<close>

record MessengerMessageMatch =
  ID :: int
  L1EventType :: int
  L1BlockNumber :: uint64
  L2EventType :: int
  L2BlockNumber :: uint64
  ETHAmount :: string
  ETHAmountStatus :: int
  L1MessengerETHBalance :: int
  L1ETHBalanceStatus :: int
  L2MessengerETHBalance :: int
  L2ETHBalanceStatus :: int

text \<open>The composite literal \<^verbatim>\<open>orm.MessengerMessageMatch{ID: id}\<close>: every other field zero.\<close>

definition zeroMatch :: "int \<Rightarrow> MessengerMessageMatch" where
  "zeroMatch i = \<lparr> ID = i, L1EventType = 0, L1BlockNumber = 0, L2EventType = 0,
     L2BlockNumber = 0, ETHAmount = [], ETHAmountStatus = 0,
     L1MessengerETHBalance = 0, L1ETHBalanceStatus = 0,
     L2MessengerETHBalance = 0, L2ETHBalanceStatus = 0 \<rparr>"

datatype error = InvalidETHAmount int | StoreError int | BeginError | CommitError

section \<open>Decoding amounts\<close>

text \<open>
  \<^verbatim>\<open>new(big.Int).SetString(s, 10)\<close> of Go's math/big: an optional sign, then one or more
  decimal digits, and nothing else; \<open>None\<close> is the \<^verbatim>\<open>ok == false\<close> return.
\<close>

definition isDigit :: "char \<Rightarrow> bool" where
  "isDigit c \<longleftrightarrow> 48 \<le> (of_char c :: nat) \<and> (of_char c :: nat) \<le> 57"

definition digitsValue :: "string \<Rightarrow> int" where
  "digitsValue ds = foldl (\<lambda>acc c. 10 * acc + (int (of_char c) - 48)) 0 ds"

definition SetString :: "string \<Rightarrow> int option" where
  "SetString s =
     (let (neg, ds) =
        (case s of
           [] \<Rightarrow> (False, s)
         | c # r \<Rightarrow> if c = CHR ''-'' then (True, r)
                    else if c = CHR ''+'' then (False, r) else (False, s))
      in if ds = [] \<or> \<not> list_all isDigit ds then None
         else Some (if neg then - digitsValue ds else digitsValue ds))"

section \<open>The aggregate check\<close>

text \<open>
  The body of the loop of \<^verbatim>\<open>checkBalance\<close> after the amount is decoded: two independent
  tests per layer, in the order of the source. \<^verbatim>\<open>computeBlockBalance\<close> repeats the same
  four tests on its per-block accumulator. Logging, the metrics counter and the calls of
  \<^verbatim>\<open>MessengerCrossChainCheck\<close>, whose result the engine drops, are left out throughout.
\<close>

definition applyEvent :: "types_pkg \<Rightarrow> LayerType \<Rightarrow> MessengerMessageMatch \<Rightarrow> int \<Rightarrow> int \<Rightarrow> int" where
  "applyEvent T layer message amount balanceDiff =
     (let d1 = (if layer = Layer1
                then (let a = (if L1EventType message = L1SentMessage T
                               then balanceDiff + amount else balanceDiff)
                      in if L1EventType message = L1RelayedMessage T then a - amount else a)
                else balanceDiff)
      in if layer = Layer2
         then (let a = (if L2EventType message = L2SentMessage T then d1 + amount else d1)
               in if L2EventType message = L2RelayedMessage T then a - amount else a)
         else d1)"

fun balanceDiffLoop ::
  "types_pkg \<Rightarrow> LayerType \<Rightarrow> MessengerMessageMatch list \<Rightarrow> int \<Rightarrow> error + int" where
  "balanceDiffLoop T layer [] balanceDiff = Inr balanceDiff"
| "balanceDiffLoop T layer (message # rest) balanceDiff =
     (case SetString (ETHAmount message) of
        None \<Rightarrow> Inl (InvalidETHAmount (ID message))
      | Some amount \<Rightarrow> balanceDiffLoop T layer rest (applyEvent T layer message amount balanceDiff))"

datatype panic = NilPointerDereference

text \<open>
  \<^verbatim>\<open>checkBalance\<close> returns \<^verbatim>\<open>(bool, *big.Int, *big.Int, error)\<close>. Adding to a nil start
  balance dereferences a nil pointer: that run-time panic is the \<open>Inl\<close> result.
\<close>

type_synonym checkResult = "bool \<times> int option \<times> int option \<times> error option"

definition checkBalance ::
  "types_pkg \<Rightarrow> LayerType \<Rightarrow> int option \<Rightarrow> int \<Rightarrow> MessengerMessageMatch list
     \<Rightarrow> panic + checkResult" where
  "checkBalance T layer startBalance endBalance messages =
     (case balanceDiffLoop T layer messages 0 of
        Inl err \<Rightarrow> Inr (False, None, None, Some err)
      | Inr balanceDiff \<Rightarrow>
          (case startBalance of
             None \<Rightarrow> Inl NilPointerDereference
           | Some start \<Rightarrow>
               (let expectedEndBalance = start + balanceDiff
                in if expectedEndBalance = endBalance
                   then Inr (True, Some expectedEndBalance, Some endBalance, None)
                   else Inr (False, Some expectedEndBalance, Some endBalance, None))))"

text \<open>
  The delta rule in the words of the specification: a SentMessage record of the checked
  layer contributes \<open>+amount\<close>, a RelayedMessage record \<open>-amount\<close>, anything else nothing.
\<close>

definition eventTypeOf :: "LayerType \<Rightarrow> MessengerMessageMatch \<Rightarrow> int" where
  "eventTypeOf layer m = (case layer of Layer1 \<Rightarrow> L1EventType m | Layer2 \<Rightarrow> L2EventType m)"

definition sentOf :: "types_pkg \<Rightarrow> LayerType \<Rightarrow> int" where
  "sentOf T layer = (case layer of Layer1 \<Rightarrow> L1SentMessage T | Layer2 \<Rightarrow> L2SentMessage T)"

definition relayedOf :: "types_pkg \<Rightarrow> LayerType \<Rightarrow> int" where
  "relayedOf T layer = (case layer of Layer1 \<Rightarrow> L1RelayedMessage T | Layer2 \<Rightarrow> L2RelayedMessage T)"

definition specDelta :: "types_pkg \<Rightarrow> LayerType \<Rightarrow> MessengerMessageMatch \<Rightarrow> int" where
  "specDelta T layer m =
     (case SetString (ETHAmount m) of
        None \<Rightarrow> 0
      | Some amount \<Rightarrow>
          if eventTypeOf layer m = sentOf T layer then amount
          else if eventTypeOf layer m = relayedOf T layer then - amount
          else 0)"

definition decodable :: "MessengerMessageMatch list \<Rightarrow> bool" where
  "decodable messages \<longleftrightarrow> list_all (\<lambda>m. SetString (ETHAmount m) \<noteq> None) messages"

section \<open>Collaborators and effects\<close>

text \<open>
  What one invocation can observe or change: the rows of the message store keyed by id,
  the statements sent to the store, the heights at which the oracle's balance was asked,
  and the mismatches handed to the alerting collaborator (record, expected, actual).
\<close>

datatype db_event = TxBegin | RowUpdate LayerType MessengerMessageMatch | TxCommit | TxRollback

record world =
  store :: "int \<rightharpoonup> MessengerMessageMatch"
  db_log :: "db_event list"
  oracle_log :: "uint64 list"
  alerts :: "(MessengerMessageMatch \<times> int option \<times> int option) list"

text \<open>
  The collaborators, as the engine meets them. The oracle may answer the same height
  differently at different calls (\<open>None\<close> is a failed call), so its answer depends on the
  number of balance queries made before. The store queries used by \<^verbatim>\<open>CheckETHBalance\<close>
  belong to the orm of \<^verbatim>\<open>MessengerMessageMatch\<close>, which is not among the sources: their
  results are inputs. The begin of a transaction, a row update or the commit may fail.
\<close>

record env =
  balanceAt :: "nat \<Rightarrow> uint64 \<Rightarrow> int option"
  latestHeader :: "LayerType \<Rightarrow> uint64 option"
  startMessengerBalance :: uint64
  GetETHCheckStartBlockNumberAndBalance :: "LayerType \<Rightarrow> error + int option"
  GetUncheckedLatestETHMessageMatch :: "LayerType \<Rightarrow> nat \<Rightarrow> error + MessengerMessageMatch list"
  GetETHMessageMatchByBlockRange ::
    "LayerType \<Rightarrow> uint64 \<Rightarrow> uint64 \<Rightarrow> error + MessengerMessageMatch list"
  beginFails :: bool
  updateFails :: "nat \<Rightarrow> int \<Rightarrow> bool"
  commitFails :: bool

datatype outcome = Returned world | Panicked world

definition BalanceAt :: "env \<Rightarrow> uint64 \<Rightarrow> world \<Rightarrow> int option \<times> world" where
  "BalanceAt E blockNumber w =
     (balanceAt E (length (oracle_log w)) blockNumber,
      w\<lparr> oracle_log := oracle_log w @ [blockNumber] \<rparr>)"

section \<open>The write path\<close>

text \<open>
  Modelled from the spec: the method
  \<^verbatim>\<open>(*orm.MessengerMessageMatch).UpdateETHBalance(ctx, layer, messageMatch, tx)\<close> that
  \<^verbatim>\<open>computeBlockBalance\<close> calls for every update of the commit set is not among the sources
  (the \<^verbatim>\<open>UpdateETHBalance\<close> of the sources is a method of \<^verbatim>\<open>orm.MessageMatch\<close>, another record
  type, and takes no transaction). The Persistence Committer is given per-record
  (id, running balance, \<open>Valid\<close> status) updates for one layer and applies them inside one
  atomic transaction; the store commits \<open>[(id, balance, status)]\<close>; balance status and
  balance value are two distinct fields. So the update of a record writes the running
  balance and the status it carries, for the layer given, into the row with its id, inside
  the transaction it is passed, or fails. A record without a row in the store writes
  nothing.
\<close>

definition writeRow :: "LayerType \<Rightarrow> MessengerMessageMatch \<Rightarrow> MessengerMessageMatch \<Rightarrow> MessengerMessageMatch" where
  "writeRow layerType messageMatch row =
     (case layerType of
        Layer1 \<Rightarrow> row\<lparr> L1MessengerETHBalance := L1MessengerETHBalance messageMatch,
                        L1ETHBalanceStatus := L1ETHBalanceStatus messageMatch \<rparr>
      | Layer2 \<Rightarrow> row\<lparr> L2MessengerETHBalance := L2MessengerETHBalance messageMatch,
                        L2ETHBalanceStatus := L2ETHBalanceStatus messageMatch \<rparr>)"

text \<open>
  Modelled from the spec: \<^verbatim>\<open>(*orm.MessengerMessageMatch).UpdateETHBalance\<close>, absent from the
  sources, as a step of the transaction it is passed. The statement is logged, then it
  fails or writes, with \<open>writeRow\<close>, the row that has the id of the update.
\<close>

definition UpdateETHBalance ::
  "env \<Rightarrow> LayerType \<Rightarrow> MessengerMessageMatch \<Rightarrow> world \<Rightarrow> error option \<times> world" where
  "UpdateETHBalance E layerType messageMatch w =
     (let w1 = w\<lparr> db_log := db_log w @ [RowUpdate layerType messageMatch] \<rparr>
      in if updateFails E (length (db_log w)) (ID messageMatch)
         then (Some (StoreError (ID messageMatch)), w1)
         else (None,
               w1\<lparr> store :=
                     (case store w1 (ID messageMatch) of
                        None \<Rightarrow> store w1
                      | Some row \<Rightarrow>
                          (store w1)(ID messageMatch \<mapsto> writeRow layerType messageMatch row)) \<rparr>))"

text \<open>The closure run inside the transaction: stop at the first failed update.\<close>

fun updateAll ::
  "env \<Rightarrow> LayerType \<Rightarrow> MessengerMessageMatch list \<Rightarrow> world \<Rightarrow> error option \<times> world" where
  "updateAll E layer [] w = (None, w)"
| "updateAll E layer (u # rest) w =
     (case UpdateETHBalance E layer u w of
        (Some err, w1) \<Rightarrow> (Some err, w1)
      | (None, w1) \<Rightarrow> updateAll E layer rest w1)"

text \<open>
  \<^verbatim>\<open>db.Transaction\<close> of gorm: begin (nothing runs when that fails), run the closure, commit
  when it returned nil, roll back (the rows as they were at the begin) when it returned an
  error or the commit failed.
\<close>

definition Transaction ::
  "env \<Rightarrow> (world \<Rightarrow> error option \<times> world) \<Rightarrow> world \<Rightarrow> error option \<times> world" where
  "Transaction E body w =
     (if beginFails E then (Some BeginError, w)
      else case body (w\<lparr> db_log := db_log w @ [TxBegin] \<rparr>) of
        (Some err, w1) \<Rightarrow>
          (Some err, w1\<lparr> store := store w, db_log := db_log w1 @ [TxRollback] \<rparr>)
      | (None, w1) \<Rightarrow>
          if commitFails E
          then (Some CommitError, w1\<lparr> store := store w, db_log := db_log w1 @ [TxRollback] \<rparr>)
          else (None, w1\<lparr> db_log := db_log w1 @ [TxCommit] \<rparr>))"

section \<open>Per-block derivation\<close>

definition blockNumberOf :: "LayerType \<Rightarrow> MessengerMessageMatch \<Rightarrow> uint64" where
  "blockNumberOf layer m = (if layer = Layer1 then L1BlockNumber m else L2BlockNumber m)"

text \<open>
  First loop of \<^verbatim>\<open>computeBlockBalance\<close>: the net amount of every block number, in a map;
  an amount that does not decode ends the whole function.
\<close>

fun blockAmountLoop ::
  "types_pkg \<Rightarrow> LayerType \<Rightarrow> MessengerMessageMatch list \<Rightarrow> (uint64 \<rightharpoonup> int)
     \<Rightarrow> error + (uint64 \<rightharpoonup> int)" where
  "blockAmountLoop T layer [] blockNumberAmountMap = Inr blockNumberAmountMap"
| "blockAmountLoop T layer (message # rest) blockNumberAmountMap =
     (let bn = blockNumberOf layer message;
          m1 = (case blockNumberAmountMap bn of
                  None \<Rightarrow> blockNumberAmountMap(bn \<mapsto> 0)
                | Some _ \<Rightarrow> blockNumberAmountMap)
      in case SetString (ETHAmount message) of
           None \<Rightarrow> Inl (InvalidETHAmount (ID message))
         | Some amount \<Rightarrow>
             (case m1 bn of
                None \<Rightarrow> blockAmountLoop T layer rest m1
              | Some acc \<Rightarrow>
                  blockAmountLoop T layer rest (m1(bn \<mapsto> applyEvent T layer message amount acc))))"

text \<open>
  Second loop: walk the records in the order given, add a block's net amount when the
  block number differs from the last one seen (initially 0), and build the update of
  every record (\<open>newUpdate\<close>: the id, the running balance and the status constant of the
  layer). Adding the entry of a block missing from the map would dereference nil.
\<close>

definition newUpdate :: "types_pkg \<Rightarrow> LayerType \<Rightarrow> int \<Rightarrow> int \<Rightarrow> MessengerMessageMatch" where
  "newUpdate T layer i lastBlockBalance =
     (if layer = Layer1
      then (zeroMatch i)\<lparr> L1MessengerETHBalance := lastBlockBalance,
             L1ETHBalanceStatus := ETHBalanceStatusTypeValid T \<rparr>
      else (zeroMatch i)\<lparr> L2MessengerETHBalance := lastBlockBalance,
             L2ETHBalanceStatus := ETHBalanceStatusTypeValid T \<rparr>)"

fun walkLoop ::
  "types_pkg \<Rightarrow> LayerType \<Rightarrow> (uint64 \<rightharpoonup> int) \<Rightarrow> MessengerMessageMatch list \<Rightarrow> int \<Rightarrow> uint64
     \<Rightarrow> panic + MessengerMessageMatch list" where
  "walkLoop T layer blockNumberAmountMap [] lastBlockBalance lastBlockNumber = Inr []"
| "walkLoop T layer blockNumberAmountMap (v # rest) lastBlockBalance lastBlockNumber =
     (let blockNumber = (if layer = Layer2 then L2BlockNumber v else L1BlockNumber v)
      in case (if blockNumber \<noteq> lastBlockNumber
               then (case blockNumberAmountMap blockNumber of
                       None \<Rightarrow> None
                     | Some d \<Rightarrow> Some (lastBlockBalance + d, blockNumber))
               else Some (lastBlockBalance, lastBlockNumber)) of
           None \<Rightarrow> Inl NilPointerDereference
         | Some (balance, number) \<Rightarrow>
             (case walkLoop T layer blockNumberAmountMap rest balance number of
                Inl p \<Rightarrow> Inl p
              | Inr updates \<Rightarrow> Inr (newUpdate T layer (ID v) balance # updates)))"

text \<open>
  The commit set: the updates sorted by id. \<^verbatim>\<open>sort.Slice\<close> is not stable; ids are the
  primary key of the table, so no two updates of one window compare equal.
\<close>

definition updateETHMessageMatches ::
  "types_pkg \<Rightarrow> LayerType \<Rightarrow> MessengerMessageMatch list \<Rightarrow> int
     \<Rightarrow> (error + panic) + MessengerMessageMatch list" where
  "updateETHMessageMatches T layer messages messengerETHBalance =
     (case blockAmountLoop T layer messages Map.empty of
        Inl err \<Rightarrow> Inl (Inl err)
      | Inr blockNumberAmountMap \<Rightarrow>
          (case walkLoop T layer blockNumberAmountMap messages messengerETHBalance 0 of
             Inl p \<Rightarrow> Inl (Inr p)
           | Inr updates \<Rightarrow> Inr (sort_key ID updates)))"

definition computeBlockBalance ::
  "env \<Rightarrow> types_pkg \<Rightarrow> LayerType \<Rightarrow> MessengerMessageMatch list \<Rightarrow> int \<Rightarrow> world \<Rightarrow> outcome" where
  "computeBlockBalance E T layer messages messengerETHBalance w =
     (case updateETHMessageMatches T layer messages messengerETHBalance of
        Inl (Inl err) \<Rightarrow> Returned w
      | Inl (Inr p) \<Rightarrow> Panicked w
      | Inr updates \<Rightarrow> Returned (snd (Transaction E (updateAll E layer updates) w)))"

section \<open>The fallback bisector\<close>

text \<open>First loop of \<^verbatim>\<open>checkBlockBalanceOneByOne\<close>: the first record whose block answers.\<close>

fun anchorScan ::
  "env \<Rightarrow> LayerType \<Rightarrow> MessengerMessageMatch list \<Rightarrow> nat \<Rightarrow> world
     \<Rightarrow> (int option \<times> nat) \<times> world" where
  "anchorScan E layer [] idx w = ((None, 0), w)"
| "anchorScan E layer (message # rest) idx w =
     (let blockNumber = (if layer = Layer1 then L1BlockNumber message else L2BlockNumber message)
      in case BalanceAt E blockNumber w of
           (None, w1) \<Rightarrow> anchorScan E layer rest (idx + 1) w1
         | (Some tmpBalance, w1) \<Rightarrow> ((Some tmpBalance, idx), w1))"

text \<open>Second loop, over the indices \<open>startIndex + 1, \<dots>, len(messages) - 1\<close>.\<close>

fun oneByOneLoop ::
  "env \<Rightarrow> types_pkg \<Rightarrow> LayerType \<Rightarrow> MessengerMessageMatch list \<Rightarrow> int option \<Rightarrow> nat
     \<Rightarrow> nat list \<Rightarrow> world \<Rightarrow> outcome" where
  "oneByOneLoop E T layer messages startBalance startIndex [] w = Returned w"
| "oneByOneLoop E T layer messages startBalance startIndex (i # is) w =
     (let blockNumber = (if layer = Layer1 then L1BlockNumber (messages ! i)
                         else L2BlockNumber (messages ! i))
      in if layer = Layer1 \<and> (i + 1 \<noteq> length messages \<and>
              L1BlockNumber (messages ! i) = L1BlockNumber (messages ! (i + 1)))
         then oneByOneLoop E T layer messages startBalance startIndex is w
         else if layer = Layer2 \<and> (i + 1 \<noteq> length messages \<and>
              L2BlockNumber (messages ! i) = L2BlockNumber (messages ! (i + 1)))
         then oneByOneLoop E T layer messages startBalance startIndex is w
         else (case BalanceAt E blockNumber w of
                 (None, w1) \<Rightarrow> oneByOneLoop E T layer messages startBalance startIndex is w1
               | (Some endBalance, w1) \<Rightarrow>
                   (case checkBalance T layer startBalance endBalance
                           (drop startIndex (take (i + 1) messages)) of
                      Inl p \<Rightarrow> Panicked w1
                    | Inr (ok, expectedEndBalance, actualBalance, err) \<Rightarrow>
                        if \<not> ok \<or> err \<noteq> None
                        then oneByOneLoop E T layer messages startBalance startIndex is
                               (w1\<lparr> alerts := alerts w1 @
                                      [(messages ! i, expectedEndBalance, actualBalance)] \<rparr>)
                        else oneByOneLoop E T layer messages startBalance startIndex is w1)))"

definition checkBlockBalanceOneByOne ::
  "env \<Rightarrow> types_pkg \<Rightarrow> LayerType \<Rightarrow> MessengerMessageMatch list \<Rightarrow> world \<Rightarrow> outcome" where
  "checkBlockBalanceOneByOne E T layer messages w =
     (case anchorScan E layer messages 0 w of
        ((startBalance, startIndex), w1) \<Rightarrow>
          oneByOneLoop E T layer messages startBalance startIndex
            [startIndex + 1 ..< length messages] w1)"

section \<open>Orchestration\<close>

definition ethBalanceGap :: uint64 where
  "ethBalanceGap = 50"

definition checkETH ::
  "env \<Rightarrow> types_pkg \<Rightarrow> LayerType \<Rightarrow> uint64 \<Rightarrow> uint64 \<Rightarrow> uint64 \<Rightarrow> int
     \<Rightarrow> MessengerMessageMatch list \<Rightarrow> world \<Rightarrow> outcome" where
  "checkETH E T layer startBlockNumber endBlockNumber latestBlockNumber startBalance messages w =
     (if layer = Layer1 \<and> endBlockNumber + ethBalanceGap < latestBlockNumber
      then computeBlockBalance E T layer messages startBalance w
      else (case BalanceAt E endBlockNumber w of
              (None, w1) \<Rightarrow> Returned w1
            | (Some endBalance, w1) \<Rightarrow>
                (case checkBalance T layer (Some startBalance) endBalance messages of
                   Inl p \<Rightarrow> Panicked w1
                 | Inr (ok, expectedEndBalance, actualBalance, err) \<Rightarrow>
                     if err \<noteq> None then Returned w1
                     else if \<not> ok then checkBlockBalanceOneByOne E T layer messages w1
                     else computeBlockBalance E T layer messages startBalance w1)))"

section \<open>Window selection\<close>

text \<open>
  The two loops of \<^verbatim>\<open>CheckETHBalance\<close> that narrow the refetched span: the block number
  of the first record whose amount status is not \<^verbatim>\<open>ETHAmountStatusTypeSet\<close> (0 when the
  loop finds none), then the records kept.
\<close>

definition truncateBlockNumber ::
  "types_pkg \<Rightarrow> LayerType \<Rightarrow> MessengerMessageMatch list \<Rightarrow> uint64" where
  "truncateBlockNumber T layerType messageMatches =
     (case find (\<lambda>messageMatch. ETHAmountStatus messageMatch \<noteq> ETHAmountStatusTypeSet T)
             messageMatches of
        None \<Rightarrow> 0
      | Some messageMatch \<Rightarrow>
          if layerType = Layer1 then L1BlockNumber messageMatch else L2BlockNumber messageMatch)"

definition truncatedMessageMatches ::
  "types_pkg \<Rightarrow> LayerType \<Rightarrow> MessengerMessageMatch list \<Rightarrow> MessengerMessageMatch list" where
  "truncatedMessageMatches T layerType messageMatches =
     filter (\<lambda>message.
               if truncateBlockNumber T layerType messageMatches = 0 then True
               else if layerType = Layer1
                    then L1BlockNumber message < truncateBlockNumber T layerType messageMatches
                    else L2BlockNumber message < truncateBlockNumber T layerType messageMatches)
       messageMatches"

definition CheckETHBalance :: "env \<Rightarrow> types_pkg \<Rightarrow> LayerType \<Rightarrow> world \<Rightarrow> outcome" where
  "CheckETHBalance E T layerType w =
     (case latestHeader E layerType of
        None \<Rightarrow> Returned w
      | Some latestBlockNumber \<Rightarrow>
     (case GetETHCheckStartBlockNumberAndBalance E layerType of
        Inl err \<Rightarrow> Returned w
      | Inr stored \<Rightarrow>
     (case (case stored of
              Some b \<Rightarrow> (Some b, w)
            | None \<Rightarrow>
                (case layerType of
                   Layer2 \<Rightarrow> BalanceAt E 0 w
                 | Layer1 \<Rightarrow> (Some (uint (startMessengerBalance E)), w))) of
        (None, w1) \<Rightarrow> Returned w1
      | (Some startBalance, w1) \<Rightarrow>
     (case GetUncheckedLatestETHMessageMatch E layerType 1000 of
        Inl err \<Rightarrow> Returned w1
      | Inr messages \<Rightarrow>
          if messages = [] then Returned w1
          else
     (case GetETHMessageMatchByBlockRange E layerType
             (blockNumberOf layerType (hd messages)) (blockNumberOf layerType (last messages)) of
        Inl err \<Rightarrow> Returned w1
      | Inr messageMatches \<Rightarrow>
          (let truncated = truncatedMessageMatches T layerType messageMatches
           in if truncated = [] then Returned w1
              else checkETH E T layerType
                     (blockNumberOf layerType (hd truncated))
                     (blockNumberOf layerType (last truncated))
                     latestBlockNumber startBalance truncated w1))))))"

section \<open>Notions used to state the properties\<close>

fun worldOf :: "outcome \<Rightarrow> world" where
  "worldOf (Returned w) = w"
| "worldOf (Panicked w) = w"

definition balanceOf :: "LayerType \<Rightarrow> MessengerMessageMatch \<Rightarrow> int" where
  "balanceOf layer m = (case layer of Layer1 \<Rightarrow> L1MessengerETHBalance m | Layer2 \<Rightarrow> L2MessengerETHBalance m)"

definition statusOf :: "LayerType \<Rightarrow> MessengerMessageMatch \<Rightarrow> int" where
  "statusOf layer m = (case layer of Layer1 \<Rightarrow> L1ETHBalanceStatus m | Layer2 \<Rightarrow> L2ETHBalanceStatus m)"

text \<open>The amount a block has in \<^verbatim>\<open>blockNumberAmountMap\<close>, 0 before its entry exists.\<close>

definition valueOr0 :: "int option \<Rightarrow> int" where
  "valueOr0 x = (case x of None \<Rightarrow> 0 | Some a \<Rightarrow> a)"

text \<open>
  Some row update of the commit set fails, the first of them being statement number \<open>n\<close>
  of the store's log.
\<close>

fun anyUpdateFails :: "env \<Rightarrow> nat \<Rightarrow> MessengerMessageMatch list \<Rightarrow> bool" where
  "anyUpdateFails E n [] = False"
| "anyUpdateFails E n (u # rest) = (updateFails E n (ID u) \<or> anyUpdateFails E (Suc n) rest)"

text \<open>The rows after every update of a commit set has been written.\<close>

definition appliedStore ::
  "LayerType \<Rightarrow> MessengerMessageMatch list \<Rightarrow> (int \<rightharpoonup> MessengerMessageMatch)
     \<Rightarrow> (int \<rightharpoonup> MessengerMessageMatch)" where
  "appliedStore layer updates rows =
     (\<lambda>i. case find (\<lambda>u. ID u = i) updates of
             None \<Rightarrow> rows i
           | Some u \<Rightarrow> map_option (writeRow layer u) (rows i))"

text \<open>
  The boundaries of the bisector: an index is checked when it is the last of the window
  or the next record lies in another block.
\<close>

definition isBoundary :: "LayerType \<Rightarrow> MessengerMessageMatch list \<Rightarrow> nat \<Rightarrow> bool" where
  "isBoundary layer messages i \<longleftrightarrow>
     i + 1 = length messages \<or>
     blockNumberOf layer (messages ! i) \<noteq> blockNumberOf layer (messages ! (i + 1))"

text \<open>
  The mismatches to report for a list of boundaries, the first of which is asked at
  oracle call \<open>n\<close>: a boundary whose query fails reports nothing; one whose balance differs
  from anchor balance plus the deltas of the records from the anchor to the boundary is
  reported with the boundary record, the expected and the actual balance.
\<close>

fun expectedAlerts ::
  "env \<Rightarrow> types_pkg \<Rightarrow> LayerType \<Rightarrow> MessengerMessageMatch list \<Rightarrow> int \<Rightarrow> nat \<Rightarrow> nat \<Rightarrow> nat list
     \<Rightarrow> (MessengerMessageMatch \<times> int option \<times> int option) list" where
  "expectedAlerts E T layer messages anchorBalance anchorIndex n [] = []"
| "expectedAlerts E T layer messages anchorBalance anchorIndex n (i # rest) =
     (case balanceAt E n (blockNumberOf layer (messages ! i)) of
        None \<Rightarrow> []
      | Some actual \<Rightarrow>
          (let expected = anchorBalance +
                 sum_list (map (specDelta T layer) (drop anchorIndex (take (i + 1) messages)))
           in if expected = actual then []
              else [(messages ! i, Some expected, Some actual)]))
     @ expectedAlerts E T layer messages anchorBalance anchorIndex (Suc n) rest"

section \<open>Concrete inputs\<close>

definition T0 :: types_pkg where
  "T0 = \<lparr> L1SentMessage = 1, L1RelayedMessage = 2, L2SentMessage = 3, L2RelayedMessage = 4,
          ETHAmountStatusTypeSet = 2, ETHBalanceStatusTypeValid = 2 \<rparr>"

text \<open>A record with layer-1 facts only: id, event kind, block number, amount.\<close>

definition l1rec :: "int \<Rightarrow> int \<Rightarrow> uint64 \<Rightarrow> string \<Rightarrow> MessengerMessageMatch" where
  "l1rec i ev blk amt =
     (zeroMatch i)\<lparr> L1EventType := ev, L1BlockNumber := blk, ETHAmount := amt,
                   ETHAmountStatus := 2 \<rparr>"

text \<open>Scenario A: Sent 30 at block 10, Relayed 20 at block 12.\<close>

definition scenarioA :: "MessengerMessageMatch list" where
  "scenarioA = [l1rec 1 1 10 ''30'', l1rec 2 2 12 ''20'']"

text \<open>Scenario C: two Sent records, 30 and 5, share block 10.\<close>

definition scenarioC :: "MessengerMessageMatch list" where
  "scenarioC = [l1rec 1 1 10 ''30'', l1rec 2 1 10 ''5'']"

text \<open>Scenario A with the ids the other way round: the larger id in the earlier block.\<close>

definition swappedA :: "MessengerMessageMatch list" where
  "swappedA = [l1rec 2 1 10 ''30'', l1rec 1 2 12 ''20'']"

text \<open>
  A refetched span whose first record, at block 0, has no amount set yet (status 1 is not
  the constant 2 of \<open>T0\<close>), followed by a resolved record at block 5.
\<close>

definition block0Span :: "MessengerMessageMatch list" where
  "block0Span = [(l1rec 1 1 0 ''30'')\<lparr> ETHAmountStatus := 1 \<rparr>, l1rec 2 1 5 ''5'']"

text \<open>A window that starts at block 0: Sent 30 at block 0, Relayed 30 at block 5.\<close>

definition block0Window :: "MessengerMessageMatch list" where
  "block0Window = [l1rec 1 1 0 ''30'', l1rec 2 2 5 ''30'']"

text \<open>
  A window with a record of no event kind on layer 1 (event type 0) between a Sent and a
  Relayed record; it shares block 10 with the Sent record.
\<close>

definition neutralWindow :: "MessengerMessageMatch list" where
  "neutralWindow = [l1rec 1 1 10 ''30'', l1rec 2 0 10 ''5'', l1rec 3 2 12 ''20'']"

text \<open>Scenario A followed by a Sent 5 at block 14.\<close>

definition threeBlocks :: "MessengerMessageMatch list" where
  "threeBlocks = [l1rec 1 1 10 ''30'', l1rec 2 2 12 ''20'', l1rec 3 1 14 ''5'']"

text \<open>A store holding the records of a window, nothing logged yet.\<close>

definition worldWith :: "MessengerMessageMatch list \<Rightarrow> world" where
  "worldWith rows = \<lparr> store = map_of (map (\<lambda>m. (ID m, m)) rows), db_log = [],
                      oracle_log = [], alerts = [] \<rparr>"

text \<open>
  An environment whose oracle gives the listed answers to its first calls, whatever the
  height, and fails afterwards; whose store queries return the given window; and in which
  the updates of the listed ids fail.
\<close>

definition envWith ::
  "int option list \<Rightarrow> MessengerMessageMatch list \<Rightarrow> int list \<Rightarrow> env" where
  "envWith answers window failing =
     \<lparr> balanceAt = (\<lambda>n h. if n < length answers then answers ! n else None),
       latestHeader = (\<lambda>l. Some 20),
       startMessengerBalance = 100,
       GetETHCheckStartBlockNumberAndBalance = (\<lambda>l. Inr None),
       GetUncheckedLatestETHMessageMatch = (\<lambda>l n. Inr window),
       GetETHMessageMatchByBlockRange = (\<lambda>l s e. Inr window),
       beginFails = False,
       updateFails = (\<lambda>n i. i \<in> set failing),
       commitFails = False \<rparr>"

section \<open>Properties of the aggregate check\<close>

lemma applyEvent_specDelta:
  assumes "distinct_events T" and "SetString (ETHAmount m) = Some amount"
  shows "applyEvent T layer m amount d = d + specDelta T layer m"
  using assms
  by (cases layer)
     (simp_all add: applyEvent_def specDelta_def distinct_events_def eventTypeOf_def
        sentOf_def relayedOf_def Let_def)

lemma balanceDiffLoop_decodable:
  assumes "distinct_events T" and "decodable messages"
  shows "balanceDiffLoop T layer messages d = Inr (d + sum_list (map (specDelta T layer) messages))"
  using assms(2)
proof (induction messages arbitrary: d)
  case Nil
  then show ?case by simp
next
  case (Cons m ms)
  from Cons.prems obtain amount where a: "SetString (ETHAmount m) = Some amount"
    by (auto simp: decodable_def)
  from Cons.prems have "decodable ms" by (simp add: decodable_def)
  with Cons.IH a assms(1) show ?case
    by (simp add: applyEvent_specDelta)
qed

lemma balanceDiffLoop_undecodable:
  assumes "\<not> decodable messages"
  shows "\<exists>e. balanceDiffLoop T layer messages d = Inl e"
  using assms
proof (induction messages arbitrary: d)
  case Nil
  then show ?case by (simp add: decodable_def)
next
  case (Cons m ms)
  then show ?case
    by (cases "SetString (ETHAmount m)") (auto simp: decodable_def)
qed

lemma checkBalance_decodable:
  assumes "distinct_events T" and "decodable messages"
  shows "checkBalance T layer (Some sb) e messages =
           Inr (sb + sum_list (map (specDelta T layer) messages) = e,
                Some (sb + sum_list (map (specDelta T layer) messages)), Some e, None)"
  using balanceDiffLoop_decodable [OF assms, of layer 0]
  by (simp add: checkBalance_def Let_def)

lemma checkBalance_no_error_decodable:
  assumes "checkBalance T layer sb e messages = Inr (ok, x, y, None)"
  shows "decodable messages"
proof (rule ccontr)
  assume "\<not> decodable messages"
  from balanceDiffLoop_undecodable [OF this, of T layer 0] assms show False
    by (auto simp: checkBalance_def)
qed

text \<open>
  C2. For every window and every start balance the aggregate check computes
  \<open>expectedEnd = startBalance + \<Sigma> delta\<close>, with \<open>+amount\<close> for a SentMessage record of the
  checked layer and \<open>-amount\<close> for a RelayedMessage record, reports both balances, and
  answers valid exactly when \<open>expectedEnd\<close> is the balance the oracle gave for the end block.
  A window with an amount that is no base-10 integer has no expected balance: the check
  answers invalid with an error.
\<close>

theorem checkBalance_aggregate:
  assumes "distinct_events T"
  shows "if decodable messages
         then checkBalance T layer (Some startBalance) endBalance messages =
                Inr (startBalance + sum_list (map (specDelta T layer) messages) = endBalance,
                     Some (startBalance + sum_list (map (specDelta T layer) messages)),
                     Some endBalance, None)
         else \<exists>e. checkBalance T layer (Some startBalance) endBalance messages =
                Inr (False, None, None, Some e)"
proof (cases "decodable messages")
  case True
  with checkBalance_decodable [OF assms True] show ?thesis by simp
next
  case False
  from balanceDiffLoop_undecodable [OF False, of T layer 0] obtain e where
    "balanceDiffLoop T layer messages 0 = Inl e" by auto
  then have "checkBalance T layer (Some startBalance) endBalance messages =
               Inr (False, None, None, Some e)"
    by (simp add: checkBalance_def)
  with False show ?thesis by auto
qed

lemma SetString_30: "SetString ''30'' = Some 30"
  by (simp add: SetString_def isDigit_def digitsValue_def)

lemma SetString_20: "SetString ''20'' = Some 20"
  by (simp add: SetString_def isDigit_def digitsValue_def)

lemma SetString_5: "SetString ''5'' = Some 5"
  by (simp add: SetString_def isDigit_def digitsValue_def)

lemma SetString_empty: "SetString [] = None"
  by (simp add: SetString_def)

lemma distinct_events_T0: "distinct_events T0"
  by (simp add: distinct_events_def T0_def)

lemma decodable_scenarioA: "decodable scenarioA"
  by (simp add: decodable_def scenarioA_def l1rec_def zeroMatch_def SetString_30 SetString_20)

lemma specDelta_scenarioA: "map (specDelta T0 Layer1) scenarioA = [30, - 20]"
  by (simp add: scenarioA_def l1rec_def zeroMatch_def specDelta_def SetString_30 SetString_20
      eventTypeOf_def sentOf_def relayedOf_def T0_def)

theorem checkBalance_aggregate_witness:
  "distinct_events T0 \<and>
   checkBalance T0 Layer1 (Some 100) 110 scenarioA = Inr (True, Some 110, Some 110, None) \<and>
   checkBalance T0 Layer1 (Some 100) 90 scenarioA = Inr (False, Some 110, Some 90, None)"
  using checkBalance_aggregate [OF distinct_events_T0, of scenarioA Layer1 100 110]
    checkBalance_aggregate [OF distinct_events_T0, of scenarioA Layer1 100 90]
  by (simp add: distinct_events_T0 decodable_scenarioA specDelta_scenarioA)

section \<open>The stale-block bypass\<close>

lemma UpdateETHBalance_frame:
  "oracle_log (snd (UpdateETHBalance E layer u w)) = oracle_log w"
  "alerts (snd (UpdateETHBalance E layer u w)) = alerts w"
  "db_log (snd (UpdateETHBalance E layer u w)) = db_log w @ [RowUpdate layer u]"
  by (simp_all add: UpdateETHBalance_def Let_def)

lemma updateAll_frame:
  "oracle_log (snd (updateAll E layer ups w)) = oracle_log w \<and>
   alerts (snd (updateAll E layer ups w)) = alerts w"
proof (induction ups arbitrary: w)
  case Nil
  then show ?case by simp
next
  case (Cons u ups)
  obtain r w1 where r: "UpdateETHBalance E layer u w = (r, w1)" by (cases "UpdateETHBalance E layer u w")
  with UpdateETHBalance_frame(1,2) [of E layer u w]
  have "oracle_log w1 = oracle_log w" "alerts w1 = alerts w" by simp_all
  with Cons.IH [of w1] r show ?case by (cases r) simp_all
qed

lemma Transaction_frame:
  assumes "\<And>w. oracle_log (snd (body w)) = oracle_log w \<and> alerts (snd (body w)) = alerts w"
  shows "oracle_log (snd (Transaction E body w)) = oracle_log w \<and>
         alerts (snd (Transaction E body w)) = alerts w"
proof -
  obtain r w1 where r: "body (w\<lparr> db_log := db_log w @ [TxBegin] \<rparr>) = (r, w1)"
    by (cases "body (w\<lparr> db_log := db_log w @ [TxBegin] \<rparr>)")
  with assms [of "w\<lparr> db_log := db_log w @ [TxBegin] \<rparr>"]
  have "oracle_log w1 = oracle_log w" "alerts w1 = alerts w" by simp_all
  with r show ?thesis by (cases r) (simp_all add: Transaction_def)
qed

lemma computeBlockBalance_frame:
  "oracle_log (worldOf (computeBlockBalance E T layer messages b w)) = oracle_log w \<and>
   alerts (worldOf (computeBlockBalance E T layer messages b w)) = alerts w"
  using Transaction_frame [of "updateAll E layer _" E w, OF updateAll_frame]
  by (auto simp: computeBlockBalance_def split: sum.splits)

lemma gap_no_overflow:
  fixes endBlockNumber latestBlockNumber :: uint64
  assumes "unat endBlockNumber + 50 < unat latestBlockNumber"
  shows "endBlockNumber + ethBalanceGap < latestBlockNumber"
proof -
  have "unat latestBlockNumber < 2 ^ 64" using unsigned_less [of latestBlockNumber] by simp
  with assms have "unat endBlockNumber + unat (50 :: uint64) < 2 ^ LENGTH(64)" by simp
  then have "unat (endBlockNumber + 50) = unat endBlockNumber + unat (50 :: uint64)"
    by (simp only: unat_add_lem [THEN iffD1])
  with assms show ?thesis by (simp add: word_less_nat_alt ethBalanceGap_def)
qed

text \<open>
  C7. On layer 1, the layer whose old balances a node may have pruned, a window with
  \<open>endBlock + 50 < latestBlock\<close> goes straight to the per-block derivation from the start
  balance: \<^verbatim>\<open>checkETH\<close> is \<^verbatim>\<open>computeBlockBalance\<close> there, and the oracle is asked for no
  balance at all.
\<close>

theorem stale_block_bypass:
  assumes "unat endBlockNumber + 50 < unat latestBlockNumber"
  shows "checkETH E T Layer1 startBlockNumber endBlockNumber latestBlockNumber startBalance messages w
           = computeBlockBalance E T Layer1 messages startBalance w \<and>
         oracle_log (worldOf (checkETH E T Layer1 startBlockNumber endBlockNumber latestBlockNumber
                       startBalance messages w)) = oracle_log w"
  using gap_no_overflow [OF assms] computeBlockBalance_frame [of E T Layer1 messages startBalance w]
  by (simp add: checkETH_def)

theorem stale_block_bypass_witness:
  "unat (12 :: uint64) + 50 < unat (100 :: uint64) \<and>
   oracle_log (worldOf (checkETH (envWith [] scenarioA []) T0 Layer1 10 12 100 100 scenarioA
                 (worldWith scenarioA))) = []"
proof -
  have h: "unat (12 :: uint64) + 50 < unat (100 :: uint64)" by simp
  have "oracle_log (worldWith scenarioA) = []" by (simp add: worldWith_def)
  with stale_block_bypass [OF h, THEN conjunct2, of "envWith [] scenarioA []" T0 10 100 scenarioA
      "worldWith scenarioA"] h
  show ?thesis by simp
qed

section \<open>Properties of the commit\<close>

lemma ID_newUpdate [simp]: "ID (newUpdate T layer i b) = i"
  by (simp add: newUpdate_def zeroMatch_def)

lemma statusOf_newUpdate [simp]:
  "statusOf layer (newUpdate T layer i b) = ETHBalanceStatusTypeValid T"
  by (cases layer) (simp_all add: newUpdate_def statusOf_def zeroMatch_def)

lemma balanceOf_newUpdate [simp]: "balanceOf layer (newUpdate T layer i b) = b"
  by (cases layer) (simp_all add: newUpdate_def balanceOf_def zeroMatch_def)

lemma walkLoop_ids:
  "walkLoop T layer M messages bal lastn = Inr ups \<Longrightarrow> map ID ups = map ID messages"
proof (induction messages arbitrary: bal lastn ups)
  case Nil
  then show ?case by simp
next
  case (Cons v rest)
  then show ?case
    by (auto simp: Let_def split: option.splits sum.splits if_splits)
qed

lemma walkLoop_status:
  "walkLoop T layer M messages bal lastn = Inr ups \<Longrightarrow>
   \<forall>u \<in> set ups. statusOf layer u = ETHBalanceStatusTypeValid T"
proof (induction messages arbitrary: bal lastn ups)
  case Nil
  then show ?case by simp
next
  case (Cons v rest)
  then show ?case
    by (auto simp: Let_def split: option.splits sum.splits if_splits)
qed

lemma updateETHMessageMatches_ids:
  assumes "updateETHMessageMatches T layer messages b = Inr ups"
  shows "sorted (map ID ups)" and "set (map ID ups) = set (map ID messages)"
    and "distinct (map ID ups) = distinct (map ID messages)"
    and "\<forall>u \<in> set ups. statusOf layer u = ETHBalanceStatusTypeValid T"
proof -
  from assms obtain M raw where
    raw: "walkLoop T layer M messages b 0 = Inr raw" and ups: "ups = sort_key ID raw"
    by (auto simp: updateETHMessageMatches_def split: sum.splits)
  show "sorted (map ID ups)" by (simp add: ups)
  have "set (map ID ups) = set (map ID raw)" by (simp add: ups)
  with walkLoop_ids [OF raw] show "set (map ID ups) = set (map ID messages)" by simp
  have "distinct (map ID ups) = distinct (map ID raw)" by (simp add: ups distinct_map)
  with walkLoop_ids [OF raw] show "distinct (map ID ups) = distinct (map ID messages)" by simp
  from walkLoop_status [OF raw] show "\<forall>u \<in> set ups. statusOf layer u = ETHBalanceStatusTypeValid T"
    by (simp add: ups)
qed

lemma updateAll_log:
  "\<exists>n. db_log (snd (updateAll E layer ups w)) = db_log w @ map (RowUpdate layer) (take n ups) \<and>
       (fst (updateAll E layer ups w) = None \<longrightarrow> n = length ups)"
proof (induction ups arbitrary: w)
  case Nil
  then show ?case by simp
next
  case (Cons u ups)
  obtain r w1 where r: "UpdateETHBalance E layer u w = (r, w1)" by (cases "UpdateETHBalance E layer u w")
  with UpdateETHBalance_frame(3) [of E layer u w]
  have log1: "db_log w1 = db_log w @ [RowUpdate layer u]" by simp
  show ?case
  proof (cases r)
    case None
    from Cons.IH [of w1] obtain n where
      n: "db_log (snd (updateAll E layer ups w1)) = db_log w1 @ map (RowUpdate layer) (take n ups)"
         "fst (updateAll E layer ups w1) = None \<longrightarrow> n = length ups" by auto
    with r None log1 have
      "db_log (snd (updateAll E layer (u # ups) w)) =
         db_log w @ map (RowUpdate layer) (take (Suc n) (u # ups)) \<and>
       (fst (updateAll E layer (u # ups) w) = None \<longrightarrow> Suc n = length (u # ups))"
      by simp
    then show ?thesis by (rule exI)
  next
    case (Some e)
    with r log1 have
      "db_log (snd (updateAll E layer (u # ups) w)) =
         db_log w @ map (RowUpdate layer) (take (Suc 0) (u # ups)) \<and>
       (fst (updateAll E layer (u # ups) w) = None \<longrightarrow> Suc 0 = length (u # ups))"
      by simp
    then show ?thesis by (rule exI)
  qed
qed

lemma updateAll_fails:
  "fst (updateAll E layer ups w) = None \<longleftrightarrow> \<not> anyUpdateFails E (length (db_log w)) ups"
proof (induction ups arbitrary: w)
  case Nil
  then show ?case by simp
next
  case (Cons u ups)
  show ?case
  proof (cases "updateFails E (length (db_log w)) (ID u)")
    case True
    then show ?thesis by (simp add: UpdateETHBalance_def Let_def)
  next
    case False
    obtain w1 where w1: "UpdateETHBalance E layer u w = (None, w1)"
      using False by (simp add: UpdateETHBalance_def Let_def)
    with UpdateETHBalance_frame(3) [of E layer u w]
    have "length (db_log w1) = Suc (length (db_log w))" by simp
    with Cons.IH [of w1] w1 False show ?thesis by simp
  qed
qed

lemma appliedStore_Nil [simp]: "appliedStore layer [] rows = rows"
  by (simp add: appliedStore_def)

lemma updateAll_store:
  assumes "distinct (map ID ups)" and "fst (updateAll E layer ups w) = None"
  shows "store (snd (updateAll E layer ups w)) = appliedStore layer ups (store w)"
  using assms
proof (induction ups arbitrary: w)
  case Nil
  then show ?case by simp
next
  case (Cons u ups)
  from Cons.prems(2) have nofail: "\<not> updateFails E (length (db_log w)) (ID u)"
    by (auto simp: UpdateETHBalance_def Let_def split: if_splits)
  then obtain w1 where w1: "UpdateETHBalance E layer u w = (None, w1)"
    by (simp add: UpdateETHBalance_def Let_def)
  with nofail have st1: "store w1 =
      (case store w (ID u) of None \<Rightarrow> store w
       | Some row \<Rightarrow> (store w)(ID u \<mapsto> writeRow layer u row))"
    by (auto simp: UpdateETHBalance_def Let_def split: option.splits)
  from Cons.prems w1 have "fst (updateAll E layer ups w1) = None" by simp
  with Cons.IH [of w1] Cons.prems(1)
  have "store (snd (updateAll E layer ups w1)) = appliedStore layer ups (store w1)" by simp
  moreover have "appliedStore layer ups (store w1) = appliedStore layer (u # ups) (store w)"
  proof
    fix i
    show "appliedStore layer ups (store w1) i = appliedStore layer (u # ups) (store w) i"
    proof (cases "i = ID u")
      case True
      with Cons.prems(1) have "find (\<lambda>x. ID x = i) ups = None"
        by (auto simp: find_None_iff image_iff)
      with True st1 show ?thesis
        by (simp add: appliedStore_def split: option.splits)
    next
      case False
      with st1 show ?thesis
        by (auto simp add: appliedStore_def split: option.splits)
    qed
  qed
  ultimately show ?case using w1 by simp
qed

lemma Transaction_updateAll_log:
  "\<exists>n. db_log (snd (Transaction E (updateAll E layer ups) w)) = db_log w \<or>
        db_log (snd (Transaction E (updateAll E layer ups) w)) =
          db_log w @ TxBegin # map (RowUpdate layer) (take n ups) @ [TxRollback] \<or>
        db_log (snd (Transaction E (updateAll E layer ups) w)) =
          db_log w @ TxBegin # map (RowUpdate layer) ups @ [TxCommit]"
proof (cases "beginFails E")
  case True
  then show ?thesis by (simp add: Transaction_def)
next
  case nobegin: False
  let ?w0 = "w\<lparr> db_log := db_log w @ [TxBegin] \<rparr>"
  obtain r w1 where r: "updateAll E layer ups ?w0 = (r, w1)" by (cases "updateAll E layer ups ?w0")
  from updateAll_log [of E layer ups ?w0] r obtain n where
    n: "db_log w1 = db_log w @ TxBegin # map (RowUpdate layer) (take n ups)"
       "r = None \<longrightarrow> n = length ups" by auto
  show ?thesis
  proof (cases "r = None \<and> \<not> commitFails E")
    case True
    with r n nobegin show ?thesis by (simp add: Transaction_def)
  next
    case False
    with r n nobegin have "db_log (snd (Transaction E (updateAll E layer ups) w)) =
          db_log w @ TxBegin # map (RowUpdate layer) (take n ups) @ [TxRollback]"
      by (cases r) (simp_all add: Transaction_def)
    then have "db_log (snd (Transaction E (updateAll E layer ups) w)) = db_log w \<or>
        db_log (snd (Transaction E (updateAll E layer ups) w)) =
          db_log w @ TxBegin # map (RowUpdate layer) (take n ups) @ [TxRollback] \<or>
        db_log (snd (Transaction E (updateAll E layer ups) w)) =
          db_log w @ TxBegin # map (RowUpdate layer) ups @ [TxCommit]" by simp
    then show ?thesis by (rule exI)
  qed
qed

lemma Transaction_updateAll_store:
  assumes "distinct (map ID ups)"
  shows "store (snd (Transaction E (updateAll E layer ups) w)) =
           (if beginFails E \<or> anyUpdateFails E (Suc (length (db_log w))) ups \<or> commitFails E
            then store w
            else appliedStore layer ups (store w))"
proof (cases "beginFails E")
  case True
  then show ?thesis by (simp add: Transaction_def)
next
  case nobegin: False
  let ?w0 = "w\<lparr> db_log := db_log w @ [TxBegin] \<rparr>"
  obtain r w1 where r: "updateAll E layer ups ?w0 = (r, w1)" by (cases "updateAll E layer ups ?w0")
  from updateAll_fails [of E layer ups ?w0] r
  have fails: "r = None \<longleftrightarrow> \<not> anyUpdateFails E (Suc (length (db_log w))) ups" by simp
  show ?thesis
  proof (cases r)
    case None
    with updateAll_store [OF assms, of E layer ?w0] r
    have "store w1 = appliedStore layer ups (store w)" by simp
    with None r fails nobegin show ?thesis by (simp add: Transaction_def)
  next
    case (Some e)
    with r fails nobegin show ?thesis by (simp add: Transaction_def)
  qed
qed

text \<open>
  C5. The commit set of a window is sorted by record id, and the row updates sent to the
  store are that list in order, between the begin and the end of a single transaction
  (all of it before a commit, a front part of it before a rollback, nothing at all when
  the transaction cannot begin): an update for a smaller id is never sent after one for a
  larger id.
\<close>

theorem commit_sorted_by_id:
  "case updateETHMessageMatches T layer messages b of
     Inl e \<Rightarrow> db_log (worldOf (computeBlockBalance E T layer messages b w)) = db_log w
   | Inr updates \<Rightarrow>
       sorted (map ID updates) \<and>
       (\<exists>n. db_log (worldOf (computeBlockBalance E T layer messages b w)) = db_log w \<or>
             db_log (worldOf (computeBlockBalance E T layer messages b w)) =
               db_log w @ TxBegin # map (RowUpdate layer) (take n updates) @ [TxRollback] \<or>
             db_log (worldOf (computeBlockBalance E T layer messages b w)) =
               db_log w @ TxBegin # map (RowUpdate layer) updates @ [TxCommit])"
proof (cases "updateETHMessageMatches T layer messages b")
  case (Inl e)
  then show ?thesis by (cases e) (simp_all add: computeBlockBalance_def)
next
  case (Inr updates)
  with updateETHMessageMatches_ids(1) [OF Inr] Transaction_updateAll_log [of E layer updates w]
  show ?thesis by (simp add: computeBlockBalance_def)
qed

lemma updates_swappedA:
  "updateETHMessageMatches T0 Layer1 swappedA 100 =
     Inr [newUpdate T0 Layer1 1 110, newUpdate T0 Layer1 2 130]"
  by (simp add: updateETHMessageMatches_def swappedA_def l1rec_def zeroMatch_def
      blockNumberOf_def SetString_30 SetString_20 applyEvent_def T0_def newUpdate_def)

theorem commit_sorted_by_id_witness:
  "sorted (map ID [newUpdate T0 Layer1 1 110, newUpdate T0 Layer1 2 130]) \<and>
   (\<exists>n. db_log (worldOf (computeBlockBalance (envWith [] swappedA []) T0 Layer1 swappedA 100
                   (worldWith swappedA))) = [] \<or>
         db_log (worldOf (computeBlockBalance (envWith [] swappedA []) T0 Layer1 swappedA 100
                   (worldWith swappedA))) =
           [] @ TxBegin # map (RowUpdate Layer1)
                 (take n [newUpdate T0 Layer1 1 110, newUpdate T0 Layer1 2 130]) @ [TxRollback] \<or>
         db_log (worldOf (computeBlockBalance (envWith [] swappedA []) T0 Layer1 swappedA 100
                   (worldWith swappedA))) =
           [] @ TxBegin # map (RowUpdate Layer1)
                 [newUpdate T0 Layer1 1 110, newUpdate T0 Layer1 2 130] @ [TxCommit])"
proof -
  have "db_log (worldWith swappedA) = []" by (simp add: worldWith_def)
  with commit_sorted_by_id [where T = T0 and layer = Layer1 and messages = swappedA and b = 100
      and E = "envWith [] swappedA []" and w = "worldWith swappedA"]
  show ?thesis by (simp only: updates_swappedA sum.case)
qed

text \<open>
  C6. The commit of a window is all or nothing. When a row update of the commit set fails,
  or the begin or the commit, the rows of the store are exactly what they were; otherwise
  every update of the commit set has been written by \<^verbatim>\<open>UpdateETHBalance\<close>. The commit set
  holds an update for every record of the window, each carrying the status Valid. A window
  whose amounts do not decode changes nothing.
\<close>

theorem commit_all_or_nothing:
  assumes "distinct (map ID messages)"
  shows "case updateETHMessageMatches T layer messages b of
     Inl e \<Rightarrow> store (worldOf (computeBlockBalance E T layer messages b w)) = store w
   | Inr updates \<Rightarrow>
       set (map ID updates) = set (map ID messages) \<and>
       (\<forall>u \<in> set updates. statusOf layer u = ETHBalanceStatusTypeValid T) \<and>
       store (worldOf (computeBlockBalance E T layer messages b w)) =
         (if beginFails E \<or> anyUpdateFails E (Suc (length (db_log w))) updates \<or> commitFails E
          then store w
          else appliedStore layer updates (store w))"
proof (cases "updateETHMessageMatches T layer messages b")
  case (Inl e)
  then show ?thesis by (cases e) (simp_all add: computeBlockBalance_def)
next
  case (Inr updates)
  from updateETHMessageMatches_ids(3) [OF Inr] assms have "distinct (map ID updates)" by simp
  from Transaction_updateAll_store [OF this, of E layer w] updateETHMessageMatches_ids(2) [OF Inr]
    updateETHMessageMatches_ids(4) [OF Inr] Inr
  show ?thesis by (simp add: computeBlockBalance_def)
qed

lemma updates_scenarioA:
  "updateETHMessageMatches T0 Layer1 scenarioA 100 =
     Inr [newUpdate T0 Layer1 1 130, newUpdate T0 Layer1 2 110]"
  by (simp add: updateETHMessageMatches_def scenarioA_def l1rec_def zeroMatch_def
      blockNumberOf_def SetString_30 SetString_20 applyEvent_def T0_def newUpdate_def)

lemma distinct_scenarioA: "distinct (map ID scenarioA)"
  by (simp add: scenarioA_def l1rec_def zeroMatch_def)

theorem commit_all_or_nothing_witness:
  "distinct (map ID scenarioA) \<and>
   store (worldOf (computeBlockBalance (envWith [] scenarioA [2]) T0 Layer1 scenarioA 100
            (worldWith scenarioA))) = store (worldWith scenarioA) \<and>
   store (worldOf (computeBlockBalance (envWith [] scenarioA []) T0 Layer1 scenarioA 100
            (worldWith scenarioA))) =
     appliedStore Layer1 [newUpdate T0 Layer1 1 130, newUpdate T0 Layer1 2 110]
       (store (worldWith scenarioA))"
  using commit_all_or_nothing [OF distinct_scenarioA, where T = T0 and layer = Layer1 and b = 100
      and E = "envWith [] scenarioA [2]" and w = "worldWith scenarioA"]
    commit_all_or_nothing [OF distinct_scenarioA, where T = T0 and layer = Layer1 and b = 100
      and E = "envWith [] scenarioA []" and w = "worldWith scenarioA"]
  by (simp add: updates_scenarioA distinct_scenarioA envWith_def)

section \<open>What a commit stores\<close>







section \<open>Window selection at block 0\<close>

lemma truncation_without_unresolved:
  assumes "find (\<lambda>m. ETHAmountStatus m \<noteq> ETHAmountStatusTypeSet T) messageMatches = None"
  shows "truncatedMessageMatches T layerType messageMatches = messageMatches"
  using assms by (simp add: truncatedMessageMatches_def truncateBlockNumber_def)

lemma truncation_below_first_unresolved:
  assumes "find (\<lambda>m. ETHAmountStatus m \<noteq> ETHAmountStatusTypeSet T) messageMatches = Some u"
    and "blockNumberOf layerType u \<noteq> 0"
  shows "truncatedMessageMatches T layerType messageMatches =
           filter (\<lambda>m. blockNumberOf layerType m < blockNumberOf layerType u) messageMatches"
  using assms
  by (cases layerType)
     (simp_all add: truncatedMessageMatches_def truncateBlockNumber_def blockNumberOf_def)

text \<open>
  C4. The window selector is to retain only records of a block strictly below the block
  of the first unresolved record of the span, also when that block is 0. At a span whose
  first unresolved record sits at block 0, the truncation block number is 0, which the
  second loop reads as "nothing to truncate", and the whole span is retained, the
  unresolved record and the record of block 5 behind it included.
\<close>

theorem truncation_at_block_zero:
  "find (\<lambda>m. ETHAmountStatus m \<noteq> ETHAmountStatusTypeSet T0) block0Span = Some (hd block0Span) \<and>
   L1BlockNumber (hd block0Span) = 0 \<and>
   truncateBlockNumber T0 Layer1 block0Span = 0 \<and>
   truncatedMessageMatches T0 Layer1 block0Span = block0Span"
  by (simp add: truncatedMessageMatches_def truncateBlockNumber_def block0Span_def l1rec_def
      zeroMatch_def T0_def)

section \<open>The running balances of a block-ordered window\<close>

lemma sum_filter_cong:
  assumes "\<forall>x \<in> set xs. P x \<longleftrightarrow> Q x"
  shows "sum_list (map f (filter P xs)) = sum_list (map f (filter Q xs))"
proof -
  from assms have "filter P xs = filter Q xs" by (auto intro: filter_cong)
  then show ?thesis by simp
qed

lemma sum_filter_split:
  fixes f :: "'a \<Rightarrow> int"
  assumes "\<forall>x \<in> set xs. P x \<longleftrightarrow> (Q x \<or> R x)" and "\<forall>x \<in> set xs. \<not> (Q x \<and> R x)"
  shows "sum_list (map f (filter P xs)) =
           sum_list (map f (filter Q xs)) + sum_list (map f (filter R xs))"
  using assms by (induction xs) auto

lemma sum_filter_none:
  fixes f :: "'a \<Rightarrow> int"
  assumes "\<forall>x \<in> set xs. \<not> P x"
  shows "sum_list (map f (filter P xs)) = 0"
  using assms by (induction xs) auto

lemma walk_blockNumber:
  "(if layer = Layer2 then L2BlockNumber v else L1BlockNumber v) = blockNumberOf layer v"
  by (cases layer) (simp_all add: blockNumberOf_def)

lemma blockAmountLoop_decodable:
  assumes "distinct_events T" and "decodable messages"
  shows "blockAmountLoop T layer messages M =
           Inr (\<lambda>B. if B \<in> blockNumberOf layer ` set messages
                     then Some (valueOr0 (M B) +
                            sum_list (map (specDelta T layer)
                              (filter (\<lambda>m. blockNumberOf layer m = B) messages)))
                     else M B)"
  using assms(2)
proof (induction messages arbitrary: M)
  case Nil
  then show ?case by simp
next
  case (Cons m ms)
  from Cons.prems obtain amount where a: "SetString (ETHAmount m) = Some amount"
    by (auto simp: decodable_def)
  from Cons.prems have dec: "decodable ms" by (simp add: decodable_def)
  let ?bn = "blockNumberOf layer m"
  let ?M2 = "M(?bn \<mapsto> valueOr0 (M ?bn) + specDelta T layer m)"
  have step: "blockAmountLoop T layer (m # ms) M = blockAmountLoop T layer ms ?M2"
    using a assms(1)
    by (cases "M ?bn") (simp_all add: Let_def applyEvent_specDelta valueOr0_def)
  have none: "\<And>B. B \<notin> blockNumberOf layer ` set ms \<Longrightarrow>
      sum_list (map (specDelta T layer) (filter (\<lambda>x. blockNumberOf layer x = B) ms)) = 0"
    by (rule sum_filter_none) auto
  show ?case
    unfolding step Cons.IH [OF dec]
    by (rule arg_cong [where f = Inr], rule ext) (auto simp: valueOr0_def none)
qed

lemma walkLoop_sorted:
  assumes "sorted (map (blockNumberOf layer) rest)"
    and "\<forall>v \<in> set rest. lastn \<le> blockNumberOf layer v"
    and "\<forall>v \<in> set rest. lastn < blockNumberOf layer v \<longrightarrow>
           M (blockNumberOf layer v) =
             Some (sum_list (map f (filter (\<lambda>m. blockNumberOf layer m = blockNumberOf layer v) rest)))"
  shows "walkLoop T layer M rest bal lastn =
           Inr (map (\<lambda>v. newUpdate T layer (ID v)
                      (bal + sum_list (map f (filter
                         (\<lambda>m. lastn < blockNumberOf layer m \<and>
                              blockNumberOf layer m \<le> blockNumberOf layer v) rest)))) rest)"
  using assms
proof (induction rest arbitrary: bal lastn)
  case Nil
  then show ?case by simp
next
  case (Cons v rest)
  let ?blk = "blockNumberOf layer"
  let ?B = "?blk v"
  from Cons.prems(1) have sorted: "sorted (map ?blk rest)" and ge: "\<forall>x \<in> set rest. ?B \<le> ?blk x"
    by simp_all
  show ?case
  proof (cases "?B = lastn")
    case True
    have m: "\<forall>x \<in> set rest. lastn < ?blk x \<longrightarrow>
        M (?blk x) = Some (sum_list (map f (filter (\<lambda>m. ?blk m = ?blk x) rest)))"
      using Cons.prems(3) True by auto
    from Cons.prems(2) have ge': "\<forall>x \<in> set rest. lastn \<le> ?blk x" by simp
    have tail: "walkLoop T layer M rest bal lastn =
        Inr (map (\<lambda>x. newUpdate T layer (ID x)
               (bal + sum_list (map f (filter (\<lambda>m. lastn < ?blk m \<and> ?blk m \<le> ?blk x) rest)))) rest)"
      by (rule Cons.IH [OF sorted ge' m])
    have head: "sum_list (map f (filter (\<lambda>m. lastn < ?blk m \<and> ?blk m \<le> ?B) (v # rest))) = 0"
      by (rule sum_filter_none) (use True in auto)
    show ?thesis
      using True tail head by (simp add: walk_blockNumber)
  next
    case False
    with Cons.prems(2) have lt: "lastn < ?B" by auto
    define d where "d = sum_list (map f (filter (\<lambda>m. ?blk m = ?B) (v # rest)))"
    from Cons.prems(3) lt have MB: "M ?B = Some d" by (simp add: d_def)
    have m: "\<forall>x \<in> set rest. ?B < ?blk x \<longrightarrow>
        M (?blk x) = Some (sum_list (map f (filter (\<lambda>m. ?blk m = ?blk x) rest)))"
    proof (intro ballI impI)
      fix x assume x: "x \<in> set rest" and "?B < ?blk x"
      with lt have "lastn < ?blk x" "?blk v \<noteq> ?blk x" by auto
      with Cons.prems(3) x show "M (?blk x) = Some (sum_list (map f (filter (\<lambda>m. ?blk m = ?blk x) rest)))"
        by simp
    qed
    have tail: "walkLoop T layer M rest (bal + d) ?B =
        Inr (map (\<lambda>x. newUpdate T layer (ID x)
               (bal + d + sum_list (map f (filter (\<lambda>m. ?B < ?blk m \<and> ?blk m \<le> ?blk x) rest)))) rest)"
      by (rule Cons.IH [OF sorted ge m])
    have head: "sum_list (map f (filter (\<lambda>m. lastn < ?blk m \<and> ?blk m \<le> ?B) (v # rest))) = d"
      unfolding d_def by (rule sum_filter_cong) (use lt ge in auto)
    have rest_eq: "\<forall>x \<in> set rest.
        d + sum_list (map f (filter (\<lambda>m. ?B < ?blk m \<and> ?blk m \<le> ?blk x) rest)) =
        sum_list (map f (filter (\<lambda>m. lastn < ?blk m \<and> ?blk m \<le> ?blk x) (v # rest)))"
    proof
      fix x assume x: "x \<in> set rest"
      with ge have Bx: "?B \<le> ?blk x" by simp
      have "sum_list (map f (filter (\<lambda>m. lastn < ?blk m \<and> ?blk m \<le> ?blk x) (v # rest))) =
            sum_list (map f (filter (\<lambda>m. ?blk m = ?B) (v # rest))) +
            sum_list (map f (filter (\<lambda>m. ?B < ?blk m \<and> ?blk m \<le> ?blk x) (v # rest)))"
        by (rule sum_filter_split) (use lt ge Bx in auto)
      also have "sum_list (map f (filter (\<lambda>m. ?B < ?blk m \<and> ?blk m \<le> ?blk x) (v # rest))) =
            sum_list (map f (filter (\<lambda>m. ?B < ?blk m \<and> ?blk m \<le> ?blk x) rest))"
        by simp
      finally show "d + sum_list (map f (filter (\<lambda>m. ?B < ?blk m \<and> ?blk m \<le> ?blk x) rest)) =
        sum_list (map f (filter (\<lambda>m. lastn < ?blk m \<and> ?blk m \<le> ?blk x) (v # rest)))"
        by (simp add: d_def)
    qed
    have "map (\<lambda>x. newUpdate T layer (ID x)
               (bal + d + sum_list (map f (filter (\<lambda>m. ?B < ?blk m \<and> ?blk m \<le> ?blk x) rest)))) rest =
          map (\<lambda>x. newUpdate T layer (ID x)
               (bal + sum_list (map f (filter (\<lambda>m. lastn < ?blk m \<and> ?blk m \<le> ?blk x) (v # rest))))) rest"
      by (rule map_cong [OF refl]) (use rest_eq in \<open>simp add: add.assoc\<close>)
    with tail head False MB show ?thesis
      by (simp add: walk_blockNumber Let_def)
  qed
qed

lemma derivation_running_balance:
  assumes "distinct_events T" and "decodable messages"
    and "sorted (map (blockNumberOf layer) messages)"
  shows "updateETHMessageMatches T layer messages b =
           Inr (sort_key ID (map (\<lambda>v. newUpdate T layer (ID v)
                  (b + sum_list (map (specDelta T layer) (filter
                     (\<lambda>m. 0 < blockNumberOf layer m \<and>
                          blockNumberOf layer m \<le> blockNumberOf layer v) messages)))) messages))"
proof -
  let ?M = "\<lambda>B. if B \<in> blockNumberOf layer ` set messages
                 then Some (valueOr0 (Map.empty B) +
                        sum_list (map (specDelta T layer)
                          (filter (\<lambda>m. blockNumberOf layer m = B) messages)))
                 else Map.empty B"
  have amounts: "blockAmountLoop T layer messages Map.empty = Inr ?M"
    by (rule blockAmountLoop_decodable [OF assms(1,2)])
  have "walkLoop T layer ?M messages b 0 =
          Inr (map (\<lambda>v. newUpdate T layer (ID v)
                 (b + sum_list (map (specDelta T layer) (filter
                    (\<lambda>m. 0 < blockNumberOf layer m \<and>
                         blockNumberOf layer m \<le> blockNumberOf layer v) messages)))) messages)"
    by (rule walkLoop_sorted [OF assms(3)]) (simp_all add: valueOr0_def)
  with amounts show ?thesis by (simp add: updateETHMessageMatches_def)
qed

lemma derivation_nonzero_blocks:
  assumes "distinct_events T" and "decodable messages"
    and "sorted (map (blockNumberOf layer) messages)"
    and "\<forall>m \<in> set messages. blockNumberOf layer m \<noteq> 0"
  shows "updateETHMessageMatches T layer messages b =
           Inr (sort_key ID (map (\<lambda>v. newUpdate T layer (ID v)
                  (b + sum_list (map (specDelta T layer) (filter
                     (\<lambda>m. blockNumberOf layer m \<le> blockNumberOf layer v) messages)))) messages))"
proof -
  have "\<forall>v \<in> set messages.
      sum_list (map (specDelta T layer) (filter
         (\<lambda>m. 0 < blockNumberOf layer m \<and> blockNumberOf layer m \<le> blockNumberOf layer v) messages)) =
      sum_list (map (specDelta T layer) (filter
         (\<lambda>m. blockNumberOf layer m \<le> blockNumberOf layer v) messages))"
    using assms(4) by (auto intro!: sum_filter_cong simp: word_greater_zero_iff)
  then have "map (\<lambda>v. newUpdate T layer (ID v)
                  (b + sum_list (map (specDelta T layer) (filter
                     (\<lambda>m. 0 < blockNumberOf layer m \<and>
                          blockNumberOf layer m \<le> blockNumberOf layer v) messages)))) messages =
        map (\<lambda>v. newUpdate T layer (ID v)
                  (b + sum_list (map (specDelta T layer) (filter
                     (\<lambda>m. blockNumberOf layer m \<le> blockNumberOf layer v) messages)))) messages"
    by (intro map_cong [OF refl]) simp
  with derivation_running_balance [OF assms(1-3), of b] show ?thesis by simp
qed

lemma derivation_scenarioC:
  "updateETHMessageMatches T0 Layer1 scenarioC 100 =
     Inr [newUpdate T0 Layer1 1 135, newUpdate T0 Layer1 2 135]"
  by (simp add: updateETHMessageMatches_def scenarioC_def l1rec_def zeroMatch_def
      blockNumberOf_def SetString_30 SetString_5 applyEvent_def T0_def newUpdate_def)

section \<open>Derivation at block 0\<close>

text \<open>
  C3. The derivation is to give every record the balance before its block plus the net
  delta of the records of that block, walking the blocks upwards from the start balance.
  At a window that starts at block 0 (Sent 30 at block 0, Relayed 30 at block 5, start
  balance 100, oracle balance 100 at block 5) the aggregate check passes, and the
  derivation gives the record of block 0 the balance 100 and the record of block 5 the
  balance 70: the net amount of block 0 is never added, since the walk starts with 0 as
  the last block number seen.
\<close>

theorem derivation_at_block_zero:
  "checkBalance T0 Layer1 (Some 100) 100 block0Window = Inr (True, Some 100, Some 100, None) \<and>
   updateETHMessageMatches T0 Layer1 block0Window 100 =
     Inr [newUpdate T0 Layer1 1 100, newUpdate T0 Layer1 2 70]"
  by (simp add: checkBalance_def updateETHMessageMatches_def block0Window_def l1rec_def
      zeroMatch_def blockNumberOf_def SetString_30 applyEvent_def T0_def newUpdate_def)

section \<open>Records of no event kind\<close>

lemma neutral_applyEvent:
  assumes "eventTypeOf layer m \<noteq> sentOf T layer" and "eventTypeOf layer m \<noteq> relayedOf T layer"
  shows "applyEvent T layer m amount acc = acc"
  using assms
  by (cases layer) (simp_all add: applyEvent_def eventTypeOf_def sentOf_def relayedOf_def)

lemma neutral_specDelta:
  assumes "eventTypeOf layer m \<noteq> sentOf T layer" and "eventTypeOf layer m \<noteq> relayedOf T layer"
  shows "specDelta T layer m = 0"
  using assms by (simp add: specDelta_def split: option.splits)

lemma sum_list_without:
  fixes f :: "'a \<Rightarrow> int"
  assumes "f m = 0"
  shows "sum_list (map f xs) = sum_list (map f (filter (\<lambda>x. x \<noteq> m) xs))"
  using assms by (induction xs) auto

lemma decodable_filter: "decodable xs \<Longrightarrow> decodable (filter P xs)"
  by (induction xs) (auto simp: decodable_def)

text \<open>
  C10. A record whose event kind on the checked layer is neither SentMessage nor
  RelayedMessage adds nothing to an accumulator of either loop, so the aggregate check of
  a window gives what it gives without the record; yet in a block-ordered window whose
  amounts decode the commit set holds an update for it, with the status Valid and the
  running balance of its block: the balance that the update of every record of that block
  carries, start balance plus the deltas of the records in the blocks \<open>1, \<dots>, b\<close> for
  block \<open>b\<close>.
\<close>

theorem neutral_record_zero_delta_still_committed:
  assumes "distinct_events T" and "decodable messages"
    and "sorted (map (blockNumberOf layer) messages)"
    and "m \<in> set messages"
    and "eventTypeOf layer m \<noteq> sentOf T layer" and "eventTypeOf layer m \<noteq> relayedOf T layer"
  shows "applyEvent T layer m amount acc = acc \<and>
         checkBalance T layer (Some b) endBalance messages =
           checkBalance T layer (Some b) endBalance (filter (\<lambda>x. x \<noteq> m) messages) \<and>
         (\<exists>updates. updateETHMessageMatches T layer messages b = Inr updates \<and>
            (\<exists>u \<in> set updates. ID u = ID m \<and>
               statusOf layer u = ETHBalanceStatusTypeValid T \<and>
               balanceOf layer u =
                 b + sum_list (map (specDelta T layer) (filter
                       (\<lambda>x. 0 < blockNumberOf layer x \<and>
                            blockNumberOf layer x \<le> blockNumberOf layer m) messages)) \<and>
               (\<forall>x \<in> set messages. blockNumberOf layer x = blockNumberOf layer m \<longrightarrow>
                  (\<exists>u' \<in> set updates. ID u' = ID x \<and> balanceOf layer u' = balanceOf layer u))))"
proof (intro conjI)
  show "applyEvent T layer m amount acc = acc"
    by (rule neutral_applyEvent [OF assms(5,6)])
next
  have zero: "specDelta T layer m = 0" by (rule neutral_specDelta [OF assms(5,6)])
  have "balanceDiffLoop T layer messages 0 =
        balanceDiffLoop T layer (filter (\<lambda>x. x \<noteq> m) messages) 0"
    using balanceDiffLoop_decodable [OF assms(1,2), of layer 0]
      balanceDiffLoop_decodable [OF assms(1) decodable_filter [OF assms(2)], of layer "\<lambda>x. x \<noteq> m" 0]
      sum_list_without [of "specDelta T layer" m messages, OF zero]
    by simp
  then show "checkBalance T layer (Some b) endBalance messages =
           checkBalance T layer (Some b) endBalance (filter (\<lambda>x. x \<noteq> m) messages)"
    by (simp add: checkBalance_def)
next
  let ?bal = "\<lambda>v. b + sum_list (map (specDelta T layer) (filter
                 (\<lambda>x. 0 < blockNumberOf layer x \<and>
                      blockNumberOf layer x \<le> blockNumberOf layer v) messages))"
  let ?ups = "sort_key ID (map (\<lambda>v. newUpdate T layer (ID v) (?bal v)) messages)"
  have eq: "updateETHMessageMatches T layer messages b = Inr ?ups"
    by (rule derivation_running_balance [OF assms(1-3)])
  let ?u = "newUpdate T layer (ID m) (?bal m)"
  from assms(4) have mem: "?u \<in> set ?ups" by simp
  have same: "\<forall>x \<in> set messages. blockNumberOf layer x = blockNumberOf layer m \<longrightarrow>
                (\<exists>u' \<in> set ?ups. ID u' = ID x \<and> balanceOf layer u' = balanceOf layer ?u)"
  proof (intro ballI impI)
    fix x assume x: "x \<in> set messages" and blk: "blockNumberOf layer x = blockNumberOf layer m"
    from x have "newUpdate T layer (ID x) (?bal x) \<in> set ?ups" by simp
    moreover from blk have "?bal x = ?bal m" by simp
    ultimately show "\<exists>u' \<in> set ?ups. ID u' = ID x \<and> balanceOf layer u' = balanceOf layer ?u"
      by (intro bexI [where x = "newUpdate T layer (ID x) (?bal x)"]) simp_all
  qed
  from mem same have "\<exists>u \<in> set ?ups. ID u = ID m \<and>
               statusOf layer u = ETHBalanceStatusTypeValid T \<and> balanceOf layer u = ?bal m \<and>
               (\<forall>x \<in> set messages. blockNumberOf layer x = blockNumberOf layer m \<longrightarrow>
                  (\<exists>u' \<in> set ?ups. ID u' = ID x \<and> balanceOf layer u' = balanceOf layer u))"
    by (intro bexI [where x = ?u]) simp_all
  with eq show "\<exists>updates. updateETHMessageMatches T layer messages b = Inr updates \<and>
            (\<exists>u \<in> set updates. ID u = ID m \<and>
               statusOf layer u = ETHBalanceStatusTypeValid T \<and> balanceOf layer u = ?bal m \<and>
               (\<forall>x \<in> set messages. blockNumberOf layer x = blockNumberOf layer m \<longrightarrow>
                  (\<exists>u' \<in> set updates. ID u' = ID x \<and> balanceOf layer u' = balanceOf layer u)))"
    by (intro exI [where x = ?ups]) simp
qed

lemma decodable_neutralWindow: "decodable neutralWindow"
  by (simp add: decodable_def neutralWindow_def l1rec_def zeroMatch_def
      SetString_30 SetString_20 SetString_5)

lemma sorted_neutralWindow: "sorted (map (blockNumberOf Layer1) neutralWindow)"
  by (simp add: neutralWindow_def l1rec_def zeroMatch_def blockNumberOf_def)

theorem neutral_record_zero_delta_still_committed_witness:
  "distinct_events T0 \<and> decodable neutralWindow \<and>
   sorted (map (blockNumberOf Layer1) neutralWindow) \<and>
   l1rec 2 0 10 ''5'' \<in> set neutralWindow \<and>
   eventTypeOf Layer1 (l1rec 2 0 10 ''5'') \<noteq> sentOf T0 Layer1 \<and>
   eventTypeOf Layer1 (l1rec 2 0 10 ''5'') \<noteq> relayedOf T0 Layer1 \<and>
   applyEvent T0 Layer1 (l1rec 2 0 10 ''5'') 5 130 = 130 \<and>
   (\<exists>updates. updateETHMessageMatches T0 Layer1 neutralWindow 100 = Inr updates \<and>
      (\<exists>u \<in> set updates. ID u = 2 \<and> statusOf Layer1 u = 2 \<and> balanceOf Layer1 u = 130))"
proof -
  have m: "l1rec 2 0 10 ''5'' \<in> set neutralWindow" by (simp add: neutralWindow_def)
  have s: "eventTypeOf Layer1 (l1rec 2 0 10 ''5'') \<noteq> sentOf T0 Layer1"
    by (simp add: eventTypeOf_def sentOf_def l1rec_def zeroMatch_def T0_def)
  have r: "eventTypeOf Layer1 (l1rec 2 0 10 ''5'') \<noteq> relayedOf T0 Layer1"
    by (simp add: eventTypeOf_def relayedOf_def l1rec_def zeroMatch_def T0_def)
  have sum: "sum_list (map (specDelta T0 Layer1) (filter
       (\<lambda>x. 0 < blockNumberOf Layer1 x \<and>
            blockNumberOf Layer1 x \<le> blockNumberOf Layer1 (l1rec 2 0 10 ''5'')) neutralWindow)) = 30"
    by (simp add: neutralWindow_def l1rec_def zeroMatch_def blockNumberOf_def specDelta_def
        eventTypeOf_def sentOf_def relayedOf_def T0_def SetString_30 SetString_5 SetString_20)
  have i: "ID (l1rec 2 0 10 ''5'') = 2" by (simp add: l1rec_def zeroMatch_def)
  have v: "ETHBalanceStatusTypeValid T0 = 2" by (simp add: T0_def)
  note inst = neutral_record_zero_delta_still_committed
    [OF distinct_events_T0 decodable_neutralWindow sorted_neutralWindow m s r,
     where amount = 5 and acc = 130 and b = 100 and endBalance = 110]
  from inst have a: "applyEvent T0 Layer1 (l1rec 2 0 10 ''5'') 5 130 = 130"
    by (rule conjunct1)
  from inst obtain updates u where
    ups: "updateETHMessageMatches T0 Layer1 neutralWindow 100 = Inr updates"
    and u: "u \<in> set updates" "ID u = ID (l1rec 2 0 10 ''5'')"
      "statusOf Layer1 u = ETHBalanceStatusTypeValid T0"
      "balanceOf Layer1 u = 100 + sum_list (map (specDelta T0 Layer1) (filter
         (\<lambda>x. 0 < blockNumberOf Layer1 x \<and>
              blockNumberOf Layer1 x \<le> blockNumberOf Layer1 (l1rec 2 0 10 ''5'')) neutralWindow))"
    by (elim conjE exE bexE)
  from u have "ID u = 2 \<and> statusOf Layer1 u = 2 \<and> balanceOf Layer1 u = 130"
    by (simp only: sum i v) simp
  with u(1) have "\<exists>u \<in> set updates. ID u = 2 \<and> statusOf Layer1 u = 2 \<and> balanceOf Layer1 u = 130"
    by (rule bexI [rotated])
  with ups have "\<exists>updates. updateETHMessageMatches T0 Layer1 neutralWindow 100 = Inr updates \<and>
      (\<exists>u \<in> set updates. ID u = 2 \<and> statusOf Layer1 u = 2 \<and> balanceOf Layer1 u = 130)"
    by (intro exI [where x = updates] conjI)
  with a m s r distinct_events_T0 decodable_neutralWindow sorted_neutralWindow
  show ?thesis by (intro conjI)
qed

section \<open>Properties of the bisector\<close>

lemma BalanceAt_frame:
  "BalanceAt E h w = (r, w1) \<Longrightarrow>
   w1 = w\<lparr> oracle_log := oracle_log w @ [h] \<rparr> \<and> r = balanceAt E (length (oracle_log w)) h"
  by (auto simp: BalanceAt_def)

lemma anchorScan_frame:
  "anchorScan E layer messages idx w = (r, w1) \<Longrightarrow>
   store w1 = store w \<and> db_log w1 = db_log w \<and> alerts w1 = alerts w"
proof (induction messages arbitrary: idx w)
  case Nil
  then show ?case by auto
next
  case (Cons m ms)
  then show ?case
    by (auto simp: Let_def BalanceAt_def split: option.splits)
qed

lemma skip_iff_not_boundary:
  "(layer = Layer1 \<and> (i + 1 \<noteq> length messages \<and>
        L1BlockNumber (messages ! i) = L1BlockNumber (messages ! (i + 1)))) \<or>
   (layer = Layer2 \<and> (i + 1 \<noteq> length messages \<and>
        L2BlockNumber (messages ! i) = L2BlockNumber (messages ! (i + 1))))
   \<longleftrightarrow> \<not> isBoundary layer messages i"
  by (cases layer) (auto simp: isBoundary_def blockNumberOf_def)

lemma decodable_drop_take: "decodable xs \<Longrightarrow> decodable (drop n (take k xs))"
  by (auto simp: decodable_def list_all_iff dest!: in_set_dropD in_set_takeD)

lemma oneByOneLoop_Cons:
  "oneByOneLoop E T layer messages sb si (i # is) w =
     (if \<not> isBoundary layer messages i then oneByOneLoop E T layer messages sb si is w
      else case balanceAt E (length (oracle_log w)) (blockNumberOf layer (messages ! i)) of
             None \<Rightarrow>
               oneByOneLoop E T layer messages sb si is
                 (w\<lparr> oracle_log := oracle_log w @ [blockNumberOf layer (messages ! i)] \<rparr>)
           | Some endBalance \<Rightarrow>
               (case checkBalance T layer sb endBalance (drop si (take (i + 1) messages)) of
                  Inl p \<Rightarrow>
                    Panicked (w\<lparr> oracle_log := oracle_log w @ [blockNumberOf layer (messages ! i)] \<rparr>)
                | Inr (ok, expectedEndBalance, actualBalance, err) \<Rightarrow>
                    if \<not> ok \<or> err \<noteq> None
                    then oneByOneLoop E T layer messages sb si is
                           (w\<lparr> oracle_log := oracle_log w @ [blockNumberOf layer (messages ! i)],
                               alerts := alerts w @
                                 [(messages ! i, expectedEndBalance, actualBalance)] \<rparr>)
                    else oneByOneLoop E T layer messages sb si is
                           (w\<lparr> oracle_log := oracle_log w @ [blockNumberOf layer (messages ! i)] \<rparr>)))"
proof (cases "isBoundary layer messages i")
  case False
  then show ?thesis
    by (cases layer) (simp_all add: isBoundary_def blockNumberOf_def Let_def)
next
  case True
  show ?thesis
  proof (cases "balanceAt E (length (oracle_log w)) (blockNumberOf layer (messages ! i))")
    case None
    with True show ?thesis
      by (cases layer) (auto simp: isBoundary_def blockNumberOf_def BalanceAt_def Let_def)
  next
    case (Some a)
    show ?thesis
    proof (cases "checkBalance T layer sb a (drop si (take (i + 1) messages))")
      case (Inl p)
      with True Some show ?thesis
        by (cases layer) (auto simp: isBoundary_def blockNumberOf_def BalanceAt_def Let_def)
    next
      case (Inr r)
      obtain ok ex ac err where r: "r = (ok, ex, ac, err)" by (cases r)
      from True Some Inr show ?thesis
        unfolding r
        by (cases layer) (auto simp: isBoundary_def blockNumberOf_def BalanceAt_def Let_def)
    qed
  qed
qed

lemma oneByOneLoop_frame:
  "store (worldOf (oneByOneLoop E T layer messages sb si is w)) = store w \<and>
   db_log (worldOf (oneByOneLoop E T layer messages sb si is w)) = db_log w"
proof (induction "is" arbitrary: w)
  case Nil
  then show ?case by simp
next
  case (Cons i "is")
  show ?case
  proof (cases "isBoundary layer messages i")
    case False
    with Cons.IH [of w] show ?thesis
      by (simp add: oneByOneLoop_Cons del: oneByOneLoop.simps)
  next
    case True
    show ?thesis
    proof (cases "balanceAt E (length (oracle_log w)) (blockNumberOf layer (messages ! i))")
      case None
      with True Cons.IH show ?thesis
        by (simp add: oneByOneLoop_Cons del: oneByOneLoop.simps)
    next
      case (Some a)
      show ?thesis
      proof (cases "checkBalance T layer sb a (drop si (take (Suc i) messages))")
        case (Inl p)
        with True Some show ?thesis
          by (simp add: oneByOneLoop_Cons del: oneByOneLoop.simps)
      next
        case (Inr r)
        obtain ok ex ac err where r: "r = (ok, ex, ac, err)" by (cases r)
        from True Some Inr Cons.IH show ?thesis
          unfolding r
          by (simp add: oneByOneLoop_Cons del: oneByOneLoop.simps)
      qed
    qed
  qed
qed

lemma checkBlockBalanceOneByOne_frame:
  "store (worldOf (checkBlockBalanceOneByOne E T layer messages w)) = store w \<and>
   db_log (worldOf (checkBlockBalanceOneByOne E T layer messages w)) = db_log w"
proof -
  obtain sb si w1 where scan: "anchorScan E layer messages 0 w = ((sb, si), w1)"
    by (cases "anchorScan E layer messages 0 w") auto
  with anchorScan_frame [OF scan] oneByOneLoop_frame [of E T layer messages sb si _ w1]
  show ?thesis by (simp add: checkBlockBalanceOneByOne_def)
qed

lemma oneByOneLoop_anchored:
  assumes "distinct_events T" and "decodable messages"
  shows "oneByOneLoop E T layer messages (Some sb) si is w =
           Returned (w\<lparr> oracle_log := oracle_log w @
                          map (\<lambda>i. blockNumberOf layer (messages ! i))
                            (filter (isBoundary layer messages) is),
                        alerts := alerts w @
                          expectedAlerts E T layer messages sb si (length (oracle_log w))
                            (filter (isBoundary layer messages) is) \<rparr>)"
proof (induction "is" arbitrary: w)
  case Nil
  then show ?case by simp
next
  case (Cons i "is")
  let ?h = "blockNumberOf layer (messages ! i)"
  let ?sub = "drop si (take (Suc i) messages)"
  let ?exp = "sb + sum_list (map (specDelta T layer) ?sub)"
  have chk: "\<And>a. checkBalance T layer (Some sb) a ?sub = Inr (?exp = a, Some ?exp, Some a, None)"
    by (rule checkBalance_decodable [OF assms(1) decodable_drop_take [OF assms(2)]])
  show ?case
  proof (cases "isBoundary layer messages i")
    case False
    with Cons.IH [of w] show ?thesis
      by (simp add: oneByOneLoop_Cons del: oneByOneLoop.simps)
  next
    case True
    let ?w1 = "w\<lparr> oracle_log := oracle_log w @ [?h] \<rparr>"
    show ?thesis
    proof (cases "balanceAt E (length (oracle_log w)) ?h")
      case None
      with True Cons.IH [of ?w1] show ?thesis
        by (simp add: oneByOneLoop_Cons del: oneByOneLoop.simps)
    next
      case (Some a)
      show ?thesis
      proof (cases "?exp = a")
        case eq: True
        have "oneByOneLoop E T layer messages (Some sb) si (i # is) w =
              oneByOneLoop E T layer messages (Some sb) si is ?w1"
          using True Some eq by (simp add: oneByOneLoop_Cons chk del: oneByOneLoop.simps)
        with True Some eq Cons.IH [of ?w1] show ?thesis
          by (simp add: Let_def del: oneByOneLoop.simps)
      next
        case neq: False
        let ?w2 = "w\<lparr> oracle_log := oracle_log w @ [?h],
                      alerts := alerts w @ [(messages ! i, Some ?exp, Some a)] \<rparr>"
        have "oneByOneLoop E T layer messages (Some sb) si (i # is) w =
              oneByOneLoop E T layer messages (Some sb) si is ?w2"
          using True Some neq by (simp add: oneByOneLoop_Cons chk del: oneByOneLoop.simps)
        with True Some neq Cons.IH [of ?w2] show ?thesis
          by (simp add: Let_def del: oneByOneLoop.simps)
      qed
    qed
  qed
qed

text \<open>
  C8. When the aggregate check of a window fails, be it by a mismatch or by an amount that
  does not decode, the rows of the store and the statements sent to it are what they were
  before the invocation. After a mismatch, if the anchor scan finds a balance, the
  bisector returns after asking the oracle at every boundary behind the anchor, and
  the mismatches handed to the alerting collaborator are exactly those of the boundaries
  whose sub-range check fails, each with the boundary record, the expected and the actual
  balance, in the order of the boundaries: no mismatch ends the scan.
\<close>

theorem aggregate_failure_reports_without_commit:
  assumes "distinct_events T"
    and "\<not> (layer = Layer1 \<and> endBlockNumber + ethBalanceGap < latestBlockNumber)"
    and "balanceAt E (length (oracle_log w)) endBlockNumber = Some endBalance"
    and "checkBalance T layer (Some startBalance) endBalance messages =
           Inr (False, expected, actual, err)"
  shows "store (worldOf (checkETH E T layer startBlockNumber endBlockNumber latestBlockNumber
                   startBalance messages w)) = store w \<and>
         db_log (worldOf (checkETH E T layer startBlockNumber endBlockNumber latestBlockNumber
                   startBalance messages w)) = db_log w \<and>
         (\<forall>sb si w2. err = None \<and>
            anchorScan E layer messages 0 (w\<lparr> oracle_log := oracle_log w @ [endBlockNumber] \<rparr>) =
              ((Some sb, si), w2) \<longrightarrow>
            checkETH E T layer startBlockNumber endBlockNumber latestBlockNumber
                startBalance messages w =
              Returned (w2\<lparr> oracle_log := oracle_log w2 @
                              map (\<lambda>i. blockNumberOf layer (messages ! i))
                                (filter (isBoundary layer messages) [si + 1 ..< length messages]),
                            alerts := alerts w @
                              expectedAlerts E T layer messages sb si (length (oracle_log w2))
                                (filter (isBoundary layer messages)
                                   [si + 1 ..< length messages]) \<rparr>))"
proof (cases err)
  case (Some e)
  let ?w1 = "w\<lparr> oracle_log := oracle_log w @ [endBlockNumber] \<rparr>"
  have q: "BalanceAt E endBlockNumber w = (Some endBalance, ?w1)"
    using assms(3) by (simp add: BalanceAt_def)
  have "checkETH E T layer startBlockNumber endBlockNumber latestBlockNumber
          startBalance messages w = Returned ?w1"
    using assms(2,4) q Some by (auto simp: checkETH_def)
  with Some show ?thesis by simp
next
  case None
  let ?w1 = "w\<lparr> oracle_log := oracle_log w @ [endBlockNumber] \<rparr>"
  have q: "BalanceAt E endBlockNumber w = (Some endBalance, ?w1)"
    using assms(3) by (simp add: BalanceAt_def)
  have run: "checkETH E T layer startBlockNumber endBlockNumber latestBlockNumber
               startBalance messages w = checkBlockBalanceOneByOne E T layer messages ?w1"
    using assms(2,4) q None by (auto simp: checkETH_def)
  have dec: "decodable messages"
    using assms(4) None by (auto intro: checkBalance_no_error_decodable)
  have frame: "store (worldOf (checkBlockBalanceOneByOne E T layer messages ?w1)) = store w \<and>
               db_log (worldOf (checkBlockBalanceOneByOne E T layer messages ?w1)) = db_log w"
    using checkBlockBalanceOneByOne_frame [of E T layer messages ?w1] by simp
  have anchored: "checkBlockBalanceOneByOne E T layer messages ?w1 =
              Returned (w2\<lparr> oracle_log := oracle_log w2 @
                              map (\<lambda>i. blockNumberOf layer (messages ! i))
                                (filter (isBoundary layer messages) [si + 1 ..< length messages]),
                            alerts := alerts w @
                              expectedAlerts E T layer messages sb si (length (oracle_log w2))
                                (filter (isBoundary layer messages)
                                   [si + 1 ..< length messages]) \<rparr>)"
    if scan: "anchorScan E layer messages 0 ?w1 = ((Some sb, si), w2)" for sb si w2
  proof -
    from anchorScan_frame [OF scan] have "alerts w2 = alerts w" by simp
    with oneByOneLoop_anchored [OF assms(1) dec, of E layer sb si "[si + 1 ..< length messages]" w2]
      scan
    show ?thesis by (simp add: checkBlockBalanceOneByOne_def del: oneByOneLoop.simps)
  qed
  from frame anchored show ?thesis
    unfolding run by blast
qed

lemma checkBalance_threeBlocks:
  "checkBalance T0 Layer1 (Some 100) 90 threeBlocks = Inr (False, Some 115, Some 90, None)"
  by (simp add: checkBalance_def threeBlocks_def l1rec_def zeroMatch_def SetString_30
      SetString_20 SetString_5 applyEvent_def T0_def)

lemma anchorScan_threeBlocks:
  "anchorScan (envWith [Some 90, Some 130, Some 90, Some 90] threeBlocks []) Layer1 threeBlocks 0
     ((worldWith threeBlocks)\<lparr> oracle_log := oracle_log (worldWith threeBlocks) @ [14] \<rparr>) =
   ((Some 130, 0), (worldWith threeBlocks)\<lparr> oracle_log := [14, 10] \<rparr>)"
  by (simp add: threeBlocks_def l1rec_def zeroMatch_def BalanceAt_def envWith_def worldWith_def)

lemma boundaries_threeBlocks:
  "filter (isBoundary Layer1 threeBlocks) [0 + 1 ..< length threeBlocks] = [1, 2]"
  by (simp add: threeBlocks_def isBoundary_def blockNumberOf_def l1rec_def zeroMatch_def upt_rec)

lemma expectedAlerts_threeBlocks:
  "expectedAlerts (envWith [Some 90, Some 130, Some 90, Some 90] threeBlocks []) T0 Layer1
     threeBlocks 130 0 2 [1, 2] =
   [(threeBlocks ! 1, Some 140, Some 90), (threeBlocks ! 2, Some 145, Some 90)]"
  by (simp add: envWith_def threeBlocks_def l1rec_def zeroMatch_def blockNumberOf_def
      specDelta_def eventTypeOf_def sentOf_def relayedOf_def T0_def SetString_30 SetString_20
      SetString_5 Let_def numeral_2_eq_2 numeral_3_eq_3)

theorem aggregate_failure_reports_without_commit_witness:
  "distinct_events T0 \<and>
   \<not> (Layer1 = Layer1 \<and> (14 :: uint64) + ethBalanceGap < 20) \<and>
   balanceAt (envWith [Some 90, Some 130, Some 90, Some 90] threeBlocks [])
     (length (oracle_log (worldWith threeBlocks))) 14 = Some 90 \<and>
   checkBalance T0 Layer1 (Some 100) 90 threeBlocks = Inr (False, Some 115, Some 90, None) \<and>
   store (worldOf (checkETH (envWith [Some 90, Some 130, Some 90, Some 90] threeBlocks [])
            T0 Layer1 10 14 20 100 threeBlocks (worldWith threeBlocks))) =
     store (worldWith threeBlocks) \<and>
   checkETH (envWith [Some 90, Some 130, Some 90, Some 90] threeBlocks [])
       T0 Layer1 10 14 20 100 threeBlocks (worldWith threeBlocks) =
     Returned ((worldWith threeBlocks)\<lparr> oracle_log := [14, 10, 12, 14],
        alerts := [(threeBlocks ! 1, Some 140, Some 90), (threeBlocks ! 2, Some 145, Some 90)] \<rparr>)"
proof -
  let ?E = "envWith [Some 90, Some 130, Some 90, Some 90] threeBlocks []"
  let ?w = "worldWith threeBlocks"
  have gap: "\<not> (Layer1 = Layer1 \<and> (14 :: uint64) + ethBalanceGap < 20)"
    by (simp add: ethBalanceGap_def)
  have q: "balanceAt ?E (length (oracle_log ?w)) 14 = Some 90"
    by (simp add: envWith_def worldWith_def)
  note inst = aggregate_failure_reports_without_commit
    [OF distinct_events_T0 gap q checkBalance_threeBlocks, where startBlockNumber = 10]
  from inst have st: "store (worldOf (checkETH ?E T0 Layer1 10 14 20 100 threeBlocks ?w)) = store ?w"
    by (rule conjunct1)
  from inst have "(None :: error option) = None \<and>
            anchorScan ?E Layer1 threeBlocks 0 (?w\<lparr> oracle_log := oracle_log ?w @ [14] \<rparr>) =
              ((Some 130, 0), ?w\<lparr> oracle_log := [14, 10] \<rparr>) \<longrightarrow>
            checkETH ?E T0 Layer1 10 14 20 100 threeBlocks ?w =
              Returned ((?w\<lparr> oracle_log := [14, 10] \<rparr>)\<lparr> oracle_log := oracle_log (?w\<lparr> oracle_log := [14, 10] \<rparr>) @
                              map (\<lambda>i. blockNumberOf Layer1 (threeBlocks ! i))
                                (filter (isBoundary Layer1 threeBlocks) [0 + 1 ..< length threeBlocks]),
                            alerts := alerts ?w @
                              expectedAlerts ?E T0 Layer1 threeBlocks 130 0
                                (length (oracle_log (?w\<lparr> oracle_log := [14, 10] \<rparr>)))
                                (filter (isBoundary Layer1 threeBlocks)
                                   [0 + 1 ..< length threeBlocks]) \<rparr>)"
    by blast
  with anchorScan_threeBlocks
  have "checkETH ?E T0 Layer1 10 14 20 100 threeBlocks ?w =
              Returned ((?w\<lparr> oracle_log := [14, 10] \<rparr>)\<lparr> oracle_log := oracle_log (?w\<lparr> oracle_log := [14, 10] \<rparr>) @
                              map (\<lambda>i. blockNumberOf Layer1 (threeBlocks ! i)) [1, 2],
                            alerts := alerts ?w @
                              expectedAlerts ?E T0 Layer1 threeBlocks 130 0
                                (length (oracle_log (?w\<lparr> oracle_log := [14, 10] \<rparr>))) [1, 2] \<rparr>)"
    by (simp only: boundaries_threeBlocks)
  moreover have len2: "length (oracle_log (?w\<lparr> oracle_log := [14, 10] \<rparr>)) = 2" by simp
  moreover have blocks: "map (\<lambda>i. blockNumberOf Layer1 (threeBlocks ! i)) [1, 2] = [12, 14]"
    by (simp add: threeBlocks_def blockNumberOf_def l1rec_def zeroMatch_def)
  moreover have noalerts: "alerts ?w = []" by (simp add: worldWith_def)
  ultimately have "checkETH ?E T0 Layer1 10 14 20 100 threeBlocks ?w =
     Returned ((?w\<lparr> oracle_log := [14, 10] \<rparr>)\<lparr> oracle_log := oracle_log (?w\<lparr> oracle_log := [14, 10] \<rparr>) @ [12, 14],
        alerts := [] @ [(threeBlocks ! 1, Some 140, Some 90), (threeBlocks ! 2, Some 145, Some 90)] \<rparr>)"
    by (simp only: expectedAlerts_threeBlocks)
  then have "checkETH ?E T0 Layer1 10 14 20 100 threeBlocks ?w =
     Returned (?w\<lparr> oracle_log := [14, 10, 12, 14],
        alerts := [(threeBlocks ! 1, Some 140, Some 90), (threeBlocks ! 2, Some 145, Some 90)] \<rparr>)"
    by simp
  with st gap q checkBalance_threeBlocks distinct_events_T0 show ?thesis by simp
qed

section \<open>The bisector under an oracle whose failures persist\<close>

lemma anchorScan_none:
  assumes "anchorScan E layer messages idx w = ((None, si), w1)"
  shows "si = 0 \<and>
         w1 = w\<lparr> oracle_log := oracle_log w @ map (blockNumberOf layer) messages \<rparr> \<and>
         (\<forall>k < length messages.
            balanceAt E (length (oracle_log w) + k) (blockNumberOf layer (messages ! k)) = None)"
  using assms
proof (induction messages arbitrary: idx w)
  case Nil
  then show ?case by simp
next
  case (Cons m ms)
  let ?h = "blockNumberOf layer m"
  let ?w1 = "w\<lparr> oracle_log := oracle_log w @ [?h] \<rparr>"
  have h: "(if layer = Layer1 then L1BlockNumber m else L2BlockNumber m) = ?h"
    by (simp add: blockNumberOf_def)
  from Cons.prems have none: "balanceAt E (length (oracle_log w)) ?h = None"
    and rest: "anchorScan E layer ms (idx + 1) ?w1 = ((None, si), w1)"
    by (auto simp: Let_def h BalanceAt_def split: option.splits)
  from Cons.IH [OF rest] have ih: "si = 0"
    "w1 = ?w1\<lparr> oracle_log := oracle_log ?w1 @ map (blockNumberOf layer) ms \<rparr>"
    "\<forall>k < length ms.
       balanceAt E (length (oracle_log ?w1) + k) (blockNumberOf layer (ms ! k)) = None"
    by simp_all
  have "\<forall>k < length (m # ms).
          balanceAt E (length (oracle_log w) + k) (blockNumberOf layer ((m # ms) ! k)) = None"
  proof (intro allI impI)
    fix k assume k: "k < length (m # ms)"
    show "balanceAt E (length (oracle_log w) + k) (blockNumberOf layer ((m # ms) ! k)) = None"
    proof (cases k)
      case 0
      with none show ?thesis by simp
    next
      case (Suc j)
      with k ih(3) show ?thesis by simp
    qed
  qed
  with ih(1,2) show ?case by simp
qed

lemma oneByOneLoop_all_fail:
  assumes "\<forall>i \<in> set is. \<forall>n. balanceAt E n (blockNumberOf layer (messages ! i)) = None"
  shows "oneByOneLoop E T layer messages sb si is w =
           Returned (w\<lparr> oracle_log := oracle_log w @
                          map (\<lambda>i. blockNumberOf layer (messages ! i))
                            (filter (isBoundary layer messages) is) \<rparr>)"
  using assms
proof (induction "is" arbitrary: w)
  case Nil
  then show ?case by simp
next
  case (Cons i "is")
  from Cons.prems have none: "\<And>n. balanceAt E n (blockNumberOf layer (messages ! i)) = None"
    and rest: "\<forall>i \<in> set is. \<forall>n. balanceAt E n (blockNumberOf layer (messages ! i)) = None"
    by simp_all
  show ?case
    using Cons.IH [OF rest] none
    by (simp add: oneByOneLoop_Cons del: oneByOneLoop.simps)
qed

lemma bisector_persistent_failures:
  assumes "\<forall>n h. balanceAt E n h = balanceAt E 0 h"
    and "anchorScan E layer messages 0 w = ((None, si), w1)"
  shows "checkBlockBalanceOneByOne E T layer messages w =
           Returned (w\<lparr> oracle_log := oracle_log w @ map (blockNumberOf layer) messages @
                          map (\<lambda>i. blockNumberOf layer (messages ! i))
                            (filter (isBoundary layer messages) [1 ..< length messages]) \<rparr>)"
proof -
  from anchorScan_none [OF assms(2)] have si: "si = 0"
    and w1: "w1 = w\<lparr> oracle_log := oracle_log w @ map (blockNumberOf layer) messages \<rparr>"
    and none: "\<forall>k < length messages.
        balanceAt E (length (oracle_log w) + k) (blockNumberOf layer (messages ! k)) = None"
    by simp_all
  have "\<forall>i \<in> set [1 ..< length messages]. \<forall>n.
          balanceAt E n (blockNumberOf layer (messages ! i)) = None"
  proof (intro ballI allI)
    fix i n assume "i \<in> set [1 ..< length messages]"
    then have "i < length messages" by simp
    with none have "balanceAt E (length (oracle_log w) + i) (blockNumberOf layer (messages ! i)) = None"
      by simp
    with assms(1) show "balanceAt E n (blockNumberOf layer (messages ! i)) = None"
      by metis
  qed
  from oneByOneLoop_all_fail [OF this, of T None 0 w1] assms(2) si w1
  show ?thesis by (simp add: checkBlockBalanceOneByOne_def del: oneByOneLoop.simps)
qed

section \<open>The bisector without an anchor\<close>

text \<open>
  C9. The bisector is never to run the aggregate check on an undefined anchor balance:
  when every query of the anchor scan fails, no sub-range check is to follow. At Scenario
  A with an oracle that answers 90 for the end block (the aggregate check fails), then
  fails twice (the anchor scan over blocks 10 and 12 finds no balance), then answers
  again: the second loop of the bisector asks for block 12, gets 110, and calls the
  aggregate check with the nil anchor balance, which panics.
\<close>

theorem bisector_nil_anchor_panics:
  "checkETH (envWith [Some 90, None, None, Some 110] scenarioA []) T0 Layer1 10 12 20 100
       scenarioA (worldWith scenarioA) =
     Panicked ((worldWith scenarioA)\<lparr> oracle_log := [12, 10, 12, 12] \<rparr>) \<and>
   anchorScan (envWith [Some 90, None, None, Some 110] scenarioA []) Layer1 scenarioA 0
       ((worldWith scenarioA)\<lparr> oracle_log := [12] \<rparr>) =
     ((None, 0), (worldWith scenarioA)\<lparr> oracle_log := [12, 10, 12] \<rparr>) \<and>
   checkBalance T0 Layer1 None 110 scenarioA = Inl NilPointerDereference"
proof -
  have scan: "anchorScan (envWith [Some 90, None, None, Some 110] scenarioA []) Layer1 scenarioA 0
       ((worldWith scenarioA)\<lparr> oracle_log := [12] \<rparr>) =
     ((None, 0), (worldWith scenarioA)\<lparr> oracle_log := [12, 10, 12] \<rparr>)"
    by (simp add: scenarioA_def l1rec_def zeroMatch_def BalanceAt_def envWith_def worldWith_def)
  have chk: "checkBalance T0 Layer1 None 110 scenarioA = Inl NilPointerDereference"
    by (simp add: checkBalance_def scenarioA_def l1rec_def zeroMatch_def SetString_30 SetString_20)
  have agg: "checkBalance T0 Layer1 (Some 100) 90 scenarioA = Inr (False, Some 110, Some 90, None)"
    by (simp add: checkBalance_def scenarioA_def l1rec_def zeroMatch_def SetString_30 SetString_20
        applyEvent_def T0_def)
  have len: "length scenarioA = 2" by (simp add: scenarioA_def)
  have blk: "L1BlockNumber (scenarioA ! Suc 0) = 12" by (simp add: scenarioA_def l1rec_def zeroMatch_def)
  have tk: "drop 0 (take (Suc 0 + 1) scenarioA) = scenarioA" by (simp add: scenarioA_def)
  have q0: "BalanceAt (envWith [Some 90, None, None, Some 110] scenarioA []) 12 (worldWith scenarioA) =
          (Some 90, (worldWith scenarioA)\<lparr> oracle_log := [12] \<rparr>)"
    by (simp add: BalanceAt_def envWith_def worldWith_def)
  have q3: "BalanceAt (envWith [Some 90, None, None, Some 110] scenarioA []) 12
              ((worldWith scenarioA)\<lparr> oracle_log := [12, 10, 12] \<rparr>) =
          (Some 110, (worldWith scenarioA)\<lparr> oracle_log := [12, 10, 12, 12] \<rparr>)"
    by (simp add: BalanceAt_def envWith_def worldWith_def)
  have "checkBlockBalanceOneByOne (envWith [Some 90, None, None, Some 110] scenarioA []) T0 Layer1
          scenarioA ((worldWith scenarioA)\<lparr> oracle_log := [12] \<rparr>) =
        Panicked ((worldWith scenarioA)\<lparr> oracle_log := [12, 10, 12, 12] \<rparr>)"
  proof -
    have idx: "[0 + 1 ..< length scenarioA] = [1]" by (simp add: len upt_rec)
    have one: "oneByOneLoop (envWith [Some 90, None, None, Some 110] scenarioA []) T0 Layer1
          scenarioA None 0 [1] ((worldWith scenarioA)\<lparr> oracle_log := [12, 10, 12] \<rparr>) =
        Panicked ((worldWith scenarioA)\<lparr> oracle_log := [12, 10, 12, 12] \<rparr>)"
      by (simp add: len blk q3 tk chk)
    show ?thesis
      by (simp only: checkBlockBalanceOneByOne_def scan prod.case idx one)
  qed
  with q0 agg have "checkETH (envWith [Some 90, None, None, Some 110] scenarioA []) T0 Layer1 10 12 20 100
       scenarioA (worldWith scenarioA) =
     Panicked ((worldWith scenarioA)\<lparr> oracle_log := [12, 10, 12, 12] \<rparr>)"
    by (simp add: checkETH_def ethBalanceGap_def)
  with scan chk show ?thesis by simp
qed

end
